theory Spec2Isabelle
  imports Main "HOL-Library.Sublist"
begin

section \<open>Python text primitives used by jazzer_postprocessing.py\<close>

text \<open>
  A line is the text obtained from \<^verbatim>\<open>line.decode("utf-8", errors="ignore")\<close>; with
  \<^verbatim>\<open>errors="ignore"\<close> the decoding itself never raises. Text is a \<^typ>\<open>string\<close>, one
  \<^typ>\<open>char\<close> per code point (code points below 256).
\<close>

datatype error = IndexError | ValueError | NameError | OSError

definition is_digit :: "char \<Rightarrow> bool" where
  \<comment> \<open>\<^verbatim>\<open>\d\<close>: the decimal digits.\<close>
  "is_digit c = (48 \<le> (of_char c :: nat) \<and> (of_char c :: nat) \<le> 57)"

definition is_space :: "char \<Rightarrow> bool" where
  \<comment> \<open>\<^verbatim>\<open>\s\<close> and \<^verbatim>\<open>str.isspace\<close>: TAB..CR, FS..US, SPACE, NEL, NBSP.\<close>
  "is_space c = (let n = (of_char c :: nat) in
     (9 \<le> n \<and> n \<le> 13) \<or> (28 \<le> n \<and> n \<le> 32) \<or> n = 133 \<or> n = 160)"

definition is_lower_alnum :: "char \<Rightarrow> bool" where
  \<comment> \<open>the class \<^verbatim>\<open>[a-z0-9]\<close>\<close>
  "is_lower_alnum c = (let n = (of_char c :: nat) in
     (97 \<le> n \<and> n \<le> 122) \<or> (48 \<le> n \<and> n \<le> 57))"

definition newline :: char where
  "newline = CHR 0x0A"

definition strip :: "string \<Rightarrow> string" where
  \<comment> \<open>\<^verbatim>\<open>str.strip()\<close>\<close>
  "strip s = rev (dropWhile is_space (rev (dropWhile is_space s)))"

fun str_contains :: "string \<Rightarrow> string \<Rightarrow> bool" where
  \<comment> \<open>\<^verbatim>\<open>sub in s\<close>\<close>
  "str_contains sub [] = (sub = [])"
| "str_contains sub (c # cs) = (prefix sub (c # cs) \<or> str_contains sub cs)"

definition remove_spaces :: "string \<Rightarrow> string" where
  \<comment> \<open>\<^verbatim>\<open>s.replace(" ", "")\<close>\<close>
  "remove_spaces s = filter (\<lambda>c. c \<noteq> CHR '' '') s"

fun split_acc :: "char \<Rightarrow> string \<Rightarrow> string \<Rightarrow> string list" where
  "split_acc sep acc [] = [rev acc]"
| "split_acc sep acc (c # cs) =
     (if c = sep then rev acc # split_acc sep [] cs else split_acc sep (c # acc) cs)"

definition py_split :: "char \<Rightarrow> string \<Rightarrow> string list" where
  \<comment> \<open>\<^verbatim>\<open>s.split(sep)\<close> for a one-character separator\<close>
  "py_split sep s = split_acc sep [] s"

definition digit_val :: "char \<Rightarrow> int" where
  "digit_val c = int (of_char c) - 48"

definition int_of_digits :: "string \<Rightarrow> int" where
  "int_of_digits ds = foldl (\<lambda>acc c. 10 * acc + digit_val c) 0 ds"

text \<open>
  What the function finds around it: the variable \<^verbatim>\<open>JAZZER_SINK_MODE\<close> (the empty string
  when unset, as \<^verbatim>\<open>os.environ.get("JAZZER_SINK_MODE", '')\<close> reads it), the interpreter's
  \<^verbatim>\<open>sys.get_int_max_str_digits()\<close> (4300 by default, 0 when the limit is switched off),
  and the global \<^verbatim>\<open>dump_fuzz_data\<close>, which the module defines only under
  \<^verbatim>\<open>__main__\<close> and which writes a file: \<open>dump_error k\<close> is the exception raised by its
  call number \<open>k\<close> (counted from 0), or \<open>None\<close> when that call returns.
\<close>

record env =
  JAZZER_SINK_MODE :: string
  int_max_str_digits :: nat
  dump_error :: "nat \<Rightarrow> error option"

definition py_int :: "env \<Rightarrow> string \<Rightarrow> error + int" where
  \<comment> \<open>\<^verbatim>\<open>int(ds)\<close> on a match of \<^verbatim>\<open>\d+\<close>. CPython raises ValueError when the string has
      more than 640 digits and more digits than the configured limit.\<close>
  "py_int e ds =
     (if 640 < length ds \<and> 0 < int_max_str_digits e \<and> int_max_str_digits e < length ds
      then Inl ValueError else Inr (int_of_digits ds))"

section \<open>Regular expressions\<close>

text \<open>
  \<^verbatim>\<open>re.match\<close> anchors at the start of the text and \<^verbatim>\<open>.\<close> matches every character but
  the newline. The greedy \<^verbatim>\<open>\d+\<close> before \<^verbatim>\<open>\s\<close> or before a literal that does not begin
  with a digit takes the whole run of digits; a greedy \<^verbatim>\<open>.*\<close> before a tail pattern takes
  the longest stretch of the first line after which the tail still matches.
\<close>

definition first_line :: "string \<Rightarrow> string" where
  "first_line s = takeWhile (\<lambda>c. c \<noteq> newline) s"

fun strip_prefix :: "string \<Rightarrow> string \<Rightarrow> string option" where
  "strip_prefix [] s = Some s"
| "strip_prefix (p # ps) [] = None"
| "strip_prefix (p # ps) (c # cs) = (if p = c then strip_prefix ps cs else None)"

datatype pat = Lit char | Dot

fun match_pat :: "pat list \<Rightarrow> string \<Rightarrow> string option" where
  "match_pat [] s = Some s"
| "match_pat (p # ps) [] = None"
| "match_pat (Lit a # ps) (c # cs) = (if a = c then match_pat ps cs else None)"
| "match_pat (Dot # ps) (c # cs) = (if c \<noteq> newline then match_pat ps cs else None)"

fun last_match :: "(string \<Rightarrow> 'a option) \<Rightarrow> string \<Rightarrow> 'a option" where
  \<comment> \<open>\<^verbatim>\<open>.*tail\<close>: the rightmost position where the tail matches\<close>
  "last_match f [] = f []"
| "last_match f (c # cs) =
     (case last_match f cs of Some r \<Rightarrow> Some r | None \<Rightarrow> f (c # cs))"

definition ts_prefix :: "string \<Rightarrow> (string \<times> string) option" where
  \<comment> \<open>\<^verbatim>\<open>^(\d+)\s\<close>: the digits and the text after the whitespace character\<close>
  "ts_prefix line =
     (case dropWhile is_digit line of
        [] \<Rightarrow> None
      | c # rest \<Rightarrow>
          if takeWhile is_digit line \<noteq> [] \<and> is_space c
          then Some (takeWhile is_digit line, rest) else None)"

definition start_banner :: "pat list" where
  "start_banner =
     map Lit ''OpenJDK 64-Bit Server VM warning: Option CriticalJNINatives was deprecated in version 16''
     @ [Dot] @ map Lit ''0 and will likely be removed in a future release'' @ [Dot]"

definition FUZZ_START_LINE_PTRN :: "string \<Rightarrow> string option" where
  \<comment> \<open>group 1 of the match, if the line matches\<close>
  "FUZZ_START_LINE_PTRN line =
     (case ts_prefix line of
        None \<Rightarrow> None
      | Some (ts, rest) \<Rightarrow>
          (case match_pat start_banner rest of None \<Rightarrow> None | Some _ \<Rightarrow> Some ts))"

definition cov_tail :: "string \<Rightarrow> (string \<times> string) option" where
  \<comment> \<open>\<^verbatim>\<open>cov: (\d+) ft: (\d+)\<close> at the start of the text\<close>
  "cov_tail s =
     (case strip_prefix ''cov: '' s of
        None \<Rightarrow> None
      | Some r \<Rightarrow>
          if takeWhile is_digit r = [] then None
          else (case strip_prefix '' ft: '' (dropWhile is_digit r) of
                  None \<Rightarrow> None
                | Some r' \<Rightarrow>
                    if takeWhile is_digit r' = [] then None
                    else Some (takeWhile is_digit r, takeWhile is_digit r')))"

definition OLD_LIBFUZZER_COV_LINE_PTRN :: "string \<Rightarrow> (string \<times> string \<times> string) option" where
  \<comment> \<open>\<^verbatim>\<open>^#(\d+).*cov: (\d+) ft: (\d+)\<close>\<close>
  "OLD_LIBFUZZER_COV_LINE_PTRN line =
     (case strip_prefix ''#'' line of
        None \<Rightarrow> None
      | Some r \<Rightarrow>
          if takeWhile is_digit r = [] then None
          else (case last_match cov_tail (first_line (dropWhile is_digit r)) of
                  None \<Rightarrow> None
                | Some (cov, ft) \<Rightarrow> Some (takeWhile is_digit r, cov, ft)))"

definition LIBFUZZER_COV_LINE_PTRN ::
  "string \<Rightarrow> (string \<times> string \<times> string \<times> string) option" where
  \<comment> \<open>\<^verbatim>\<open>^(\d+)\s#(\d+).*cov: (\d+) ft: (\d+)\<close>\<close>
  "LIBFUZZER_COV_LINE_PTRN line =
     (case ts_prefix line of
        None \<Rightarrow> None
      | Some (ts, rest) \<Rightarrow>
          (case OLD_LIBFUZZER_COV_LINE_PTRN rest of
             None \<Rightarrow> None
           | Some (roundno, cov, ft) \<Rightarrow> Some (ts, roundno, cov, ft)))"

definition OLD_LIBFUZZER_CRASH_LINE_PTRN :: "string \<Rightarrow> string option" where
  \<comment> \<open>\<^verbatim>\<open>^(== Java Exception:.*)\<close>\<close>
  "OLD_LIBFUZZER_CRASH_LINE_PTRN line =
     (case strip_prefix ''== Java Exception:'' line of
        None \<Rightarrow> None
      | Some r \<Rightarrow> Some (''== Java Exception:'' @ first_line r))"

definition LIBFUZZER_CRASH_LINE_PTRN :: "string \<Rightarrow> (string \<times> string) option" where
  \<comment> \<open>\<^verbatim>\<open>^(\d+)\s(== Java Exception:.*)\<close>\<close>
  "LIBFUZZER_CRASH_LINE_PTRN line =
     (case ts_prefix line of
        None \<Rightarrow> None
      | Some (ts, rest) \<Rightarrow>
          (case OLD_LIBFUZZER_CRASH_LINE_PTRN rest of
             None \<Rightarrow> None
           | Some crash \<Rightarrow> Some (ts, crash)))"

definition artifact_tail :: "string \<Rightarrow> string option" where
  \<comment> \<open>\<^verbatim>\<open>/artifacts/(crash-[a-z0-9]+)\<close> at the start of the text\<close>
  "artifact_tail s =
     (case strip_prefix ''/artifacts/crash-'' s of
        None \<Rightarrow> None
      | Some r \<Rightarrow>
          if takeWhile is_lower_alnum r = [] then None
          else Some (''crash-'' @ takeWhile is_lower_alnum r))"

definition written_tail :: "string \<Rightarrow> string option" where
  \<comment> \<open>\<^verbatim>\<open>; Test unit written to .*/artifacts/(crash-[a-z0-9]+)\<close> at the start of the text\<close>
  "written_tail s =
     (case strip_prefix ''; Test unit written to '' s of
        None \<Rightarrow> None
      | Some r \<Rightarrow> last_match artifact_tail (first_line r))"

definition OLD_CRASH_ARTIFACT_LINE_PTRN :: "string \<Rightarrow> string option" where
  \<comment> \<open>\<^verbatim>\<open>^artifact_prefix=.*; Test unit written to .*/artifacts/(crash-[a-z0-9]+)\<close>\<close>
  "OLD_CRASH_ARTIFACT_LINE_PTRN line =
     (case strip_prefix ''artifact_prefix='' line of
        None \<Rightarrow> None
      | Some r \<Rightarrow> last_match written_tail (first_line r))"

definition CRASH_ARTIFACT_LINE_PTRN :: "string \<Rightarrow> (string \<times> string) option" where
  \<comment> \<open>the same after \<^verbatim>\<open>^(\d+)\s\<close>\<close>
  "CRASH_ARTIFACT_LINE_PTRN line =
     (case ts_prefix line of
        None \<Rightarrow> None
      | Some (ts, rest) \<Rightarrow>
          (case OLD_CRASH_ARTIFACT_LINE_PTRN rest of
             None \<Rightarrow> None
           | Some artifact \<Rightarrow> Some (ts, artifact)))"

definition JAZZER_EXIT_LOG :: string where
  "JAZZER_EXIT_LOG = ''@@@@@ exit code of Jazzer''"

section \<open>Crash classification\<close>

definition SANITIZERS :: "string list" where
  "SANITIZERS =
    [''FuzzerSecurityIssueCritical: OS Command Injection'',
     ''FuzzerSecurityIssueCritical: Integer Overflow'',
     ''FuzzerSecurityIssueMedium: Server Side Request Forgery (SSRF)'',
     ''FuzzerSecurityIssueHigh: Remote Code Execution'',
     ''FuzzerSecurityIssueHigh: SQL Injection'',
     ''FuzzerSecurityIssueCritical: Remote JNDI Lookup'',
     ''FuzzerSecurityIssueCritical: LDAP Injection'',
     ''FuzzerSecurityIssueHigh: XPath Injection'',
     ''FuzzerSecurityIssueHigh: load arbitrary library'',
     ''FuzzerSecurityIssueLow: Regular Expression Injection'',
     ''FuzzerSecurityIssueCritical: Script Engine Injection'',
     ''FuzzerSecurityIssueCritical: File read/write hook path'']"

definition is_of_jazzer_sink :: "env \<Rightarrow> string \<Rightarrow> bool" where
  "is_of_jazzer_sink e crash =
     (JAZZER_SINK_MODE e \<noteq> [] \<and> str_contains ''BEEP BEEP, sink point'' crash)"

definition is_known_sanitizer :: "string \<Rightarrow> bool" where
  "is_known_sanitizer sanitizer = (sanitizer \<in> set SANITIZERS)"

definition is_interesting_crash :: "string \<Rightarrow> error + bool" where
  \<comment> \<open>the three checkers in order; \<^verbatim>\<open>c.split(":")[1]\<close> raises IndexError on a text
      without a colon\<close>
  "is_interesting_crash crash =
     (case py_split CHR '':'' crash of
        _ # field # _ \<Rightarrow>
          if \<not> str_contains ''code_intelligence'' field then Inr False
          else if str_contains ''Stack overflow (use '' crash then Inr False
          else if str_contains ''Out of memory'' crash then Inr False
          else Inr True
      | _ \<Rightarrow> Inl IndexError)"

fun scan_sanitizers :: "string list \<Rightarrow> string \<Rightarrow> string" where
  \<comment> \<open>the \<^verbatim>\<open>for sanitizer in SANITIZERS\<close> loop and the final return\<close>
  "scan_sanitizers [] crash = ''UNKNOWN SANITIZER''"
| "scan_sanitizers (sanitizer # rest) crash =
     (if str_contains sanitizer crash then sanitizer
      else if str_contains (remove_spaces sanitizer) crash then sanitizer
      else scan_sanitizers rest crash)"

definition crash_2_sanitizer :: "env \<Rightarrow> string \<Rightarrow> error + string option" where
  "crash_2_sanitizer e crash =
     (if is_of_jazzer_sink e crash then Inr (Some ''SINKPOINT'')
      else (case is_interesting_crash crash of
              Inl err \<Rightarrow> Inl err
            | Inr False \<Rightarrow> Inr None
            | Inr True \<Rightarrow> Inr (Some (scan_sanitizers SANITIZERS crash))))"

section \<open>Line extractors\<close>

definition elapsed :: "int \<Rightarrow> int option \<Rightarrow> int option" where
  \<comment> \<open>\<^verbatim>\<open>timestamp - initial_timestamp if initial_timestamp is not None else None\<close>\<close>
  "elapsed timestamp initial_timestamp =
     (case initial_timestamp of None \<Rightarrow> None | Some t0 \<Rightarrow> Some (timestamp - t0))"

definition parse_cov_line ::
  "env \<Rightarrow> string \<Rightarrow> int option \<Rightarrow> error + (int \<times> int option \<times> int \<times> int) option" where
  "parse_cov_line e line initial_timestamp =
     (case LIBFUZZER_COV_LINE_PTRN line of
        Some (g1, g2, g3, g4) \<Rightarrow>
          (case (py_int e g1, py_int e g2, py_int e g3, py_int e g4) of
             (Inr timestamp, Inr roundno, Inr cov, Inr ft) \<Rightarrow>
               Inr (Some (roundno, elapsed timestamp initial_timestamp, cov, ft))
           | _ \<Rightarrow> Inl ValueError)
      | None \<Rightarrow>
          (case OLD_LIBFUZZER_COV_LINE_PTRN line of
             Some (g1, g2, g3) \<Rightarrow>
               (case (py_int e g1, py_int e g2, py_int e g3) of
                  (Inr roundno, Inr cov, Inr ft) \<Rightarrow> Inr (Some (roundno, None, cov, ft))
                | _ \<Rightarrow> Inl ValueError)
           | None \<Rightarrow> Inr None))"

definition parse_crash_line ::
  "env \<Rightarrow> string \<Rightarrow> int option \<Rightarrow> error + (int option \<times> string) option" where
  "parse_crash_line e line initial_timestamp =
     (case LIBFUZZER_CRASH_LINE_PTRN line of
        Some (g1, crash) \<Rightarrow>
          (case py_int e g1 of
             Inr timestamp \<Rightarrow> Inr (Some (elapsed timestamp initial_timestamp, crash))
           | Inl err \<Rightarrow> Inl err)
      | None \<Rightarrow>
          (case OLD_LIBFUZZER_CRASH_LINE_PTRN line of
             Some crash \<Rightarrow> Inr (Some (None, crash))
           | None \<Rightarrow> Inr None))"

definition parse_artifact_line ::
  "env \<Rightarrow> string \<Rightarrow> int option \<Rightarrow> error + (int option \<times> string) option" where
  "parse_artifact_line e line initial_timestamp =
     (case CRASH_ARTIFACT_LINE_PTRN line of
        Some (g1, artifact) \<Rightarrow>
          (case py_int e g1 of
             Inr timestamp \<Rightarrow> Inr (Some (elapsed timestamp initial_timestamp, artifact))
           | Inl err \<Rightarrow> Inl err)
      | None \<Rightarrow>
          (case OLD_CRASH_ARTIFACT_LINE_PTRN line of
             Some artifact \<Rightarrow> Inr (Some (None, artifact))
           | None \<Rightarrow> Inr None))"

section \<open>The stream processor\<close>

text \<open>
  The local variables of \<^verbatim>\<open>parse_log_in_stream\<close>, in one record. A pending crash is
  \<^verbatim>\<open>(crash_time, crash, sanitizer)\<close>, a triaged crash is
  \<^verbatim>\<open>(crash_time, sanitizer, crash, artifact)\<close>. The dictionary \<^verbatim>\<open>fuzz_data\<close> holds
  the five lists by reference, so it always shows their current contents, and the five
  numbers by value, as of the last \<^verbatim>\<open>sync_result\<close>: \<open>fuzz_data_scalars\<close> keeps those
  (\<open>None\<close> before the first sync, when the dictionary is still empty). \<open>dumped\<close>
  lists the documents handed to \<^verbatim>\<open>dump_fuzz_data\<close>, \<open>logged\<close> the errors printed by
  the outer \<^verbatim>\<open>except\<close>. The copy of each raw line to standard output is not part of the
  state.
\<close>

type_synonym pending_crash = "int option \<times> string \<times> string"
type_synonym triaged_crash = "int option \<times> string \<times> string \<times> string"
type_synonym fuzz_status = "int \<times> int option \<times> int \<times> int"

record fuzz_data =
  fd_cov_over_time :: "(int option \<times> int) list"
  fd_ft_over_time :: "(int option \<times> int) list"
  fd_log_crash_over_time :: "(int option \<times> string) list"
  fd_artifact_over_time :: "(int option \<times> string) list"
  fd_log_triage_crash_over_time :: "triaged_crash list"
  fd_ttl_round :: int
  fd_last_cov :: int
  fd_last_ft :: int
  fd_max_cov :: int
  fd_max_ft :: int

record pstate =
  cov_over_time :: "(int option \<times> int) list"
  ft_over_time :: "(int option \<times> int) list"
  log_crash_over_time :: "(int option \<times> string) list"
  artifact_over_time :: "(int option \<times> string) list"
  log_triage_crash_over_time :: "triaged_crash list"
  pending_crashes :: "pending_crash list"
  seen_sanitizers :: "string set"
  ttl_round :: int
  last_cov :: int
  last_ft :: int
  max_cov :: int
  max_ft :: int
  need_dump :: bool
  initial_timestamp :: "int option"
  ttl_roundno_base :: int
  all_fuzz_statuses :: "fuzz_status list list"
  fuzz_statuses :: "fuzz_status list"
  fuzz_data_scalars :: "(int \<times> int \<times> int \<times> int \<times> int) option"
  dumped :: "fuzz_data option list"
  logged :: "error list"

definition init_state :: pstate where
  "init_state =
     \<lparr>cov_over_time = [], ft_over_time = [], log_crash_over_time = [],
      artifact_over_time = [], log_triage_crash_over_time = [],
      pending_crashes = [], seen_sanitizers = {},
      ttl_round = 0, last_cov = 0, last_ft = 0, max_cov = 0, max_ft = 0,
      need_dump = False, initial_timestamp = None, ttl_roundno_base = 0,
      all_fuzz_statuses = [], fuzz_statuses = [],
      fuzz_data_scalars = None, dumped = [], logged = []\<rparr>"

definition sync_result :: "pstate \<Rightarrow> pstate" where
  "sync_result s =
     s\<lparr>fuzz_data_scalars := Some (ttl_round s, last_cov s, last_ft s, max_cov s, max_ft s)\<rparr>"

definition fuzz_data_of :: "pstate \<Rightarrow> fuzz_data option" where
  \<comment> \<open>what the dictionary \<^verbatim>\<open>fuzz_data\<close> shows\<close>
  "fuzz_data_of s =
     (case fuzz_data_scalars s of
        None \<Rightarrow> None
      | Some (r, lc, lf, mc, mf) \<Rightarrow>
          Some \<lparr>fd_cov_over_time = cov_over_time s, fd_ft_over_time = ft_over_time s,
                fd_log_crash_over_time = log_crash_over_time s,
                fd_artifact_over_time = artifact_over_time s,
                fd_log_triage_crash_over_time = log_triage_crash_over_time s,
                fd_ttl_round = r, fd_last_cov = lc, fd_last_ft = lf,
                fd_max_cov = mc, fd_max_ft = mf\<rparr>)"

definition dump_fuzz_data :: "env \<Rightarrow> pstate \<Rightarrow> (error \<times> pstate) + pstate" where
  \<comment> \<open>the call \<^verbatim>\<open>dump_fuzz_data()\<close>: it raises, or it writes the document\<close>
  "dump_fuzz_data e s =
     (case dump_error e (length (dumped s)) of
        Some err \<Rightarrow> Inl (err, s)
      | None \<Rightarrow> Inr (s\<lparr>dumped := dumped s @ [fuzz_data_of s]\<rparr>))"

definition eligible :: "int option \<Rightarrow> int option \<Rightarrow> bool" where
  \<comment> \<open>\<^verbatim>\<open>elapsed_time is None or crash_time is None or elapsed_time >= crash_time\<close>\<close>
  "eligible elapsed_time crash_time =
     (case elapsed_time of
        None \<Rightarrow> True
      | Some a \<Rightarrow> (case crash_time of None \<Rightarrow> True | Some c \<Rightarrow> a \<ge> c))"

fun scan_pending ::
  "int option \<Rightarrow> string \<Rightarrow> pending_crash list \<Rightarrow> pending_crash list \<Rightarrow> pstate \<Rightarrow> pstate" where
  \<comment> \<open>the \<^verbatim>\<open>while i < len(pending_crashes)\<close> loop: \<open>kept\<close> is the part of the queue
      before index \<open>i\<close>, the list argument the part from \<open>i\<close> on\<close>
  "scan_pending elapsed_time artifact kept [] s = s\<lparr>pending_crashes := kept\<rparr>"
| "scan_pending elapsed_time artifact kept ((crash_time, crash, sanitizer) # rest) s =
     (if eligible elapsed_time crash_time then
        (if sanitizer \<notin> seen_sanitizers s \<or> sanitizer = ''SINKPOINT'' then
           scan_pending elapsed_time artifact kept rest
             (s\<lparr>log_triage_crash_over_time :=
                   log_triage_crash_over_time s @ [(crash_time, sanitizer, crash, artifact)],
                seen_sanitizers := insert sanitizer (seen_sanitizers s),
                need_dump := True\<rparr>)
         else scan_pending elapsed_time artifact kept rest s)
      else scan_pending elapsed_time artifact (kept @ [(crash_time, crash, sanitizer)]) rest s)"

text \<open>
  One iteration of the \<^verbatim>\<open>for line in file_obj\<close> loop, stage by stage. A stage that raises
  returns \<open>Inl\<close> with the error and the state at the raise.
\<close>

type_synonym stage_result = "(error \<times> pstate) + pstate"

definition then_stage :: "stage_result \<Rightarrow> (pstate \<Rightarrow> stage_result) \<Rightarrow> stage_result" where
  "then_stage r f = (case r of Inl x \<Rightarrow> Inl x | Inr s \<Rightarrow> f s)"

definition stage_start :: "env \<Rightarrow> string \<Rightarrow> pstate \<Rightarrow> stage_result" where
  "stage_start e line s =
     (if initial_timestamp s = None then
        (case FUZZ_START_LINE_PTRN line of
           None \<Rightarrow> Inr s
         | Some g1 \<Rightarrow>
             (case py_int e g1 of
                Inl err \<Rightarrow> Inl (err, s)
              | Inr t \<Rightarrow> Inr (s\<lparr>initial_timestamp := Some t, need_dump := True\<rparr>)))
      else Inr s)"

definition stage_cov :: "env \<Rightarrow> string \<Rightarrow> pstate \<Rightarrow> stage_result" where
  "stage_cov e line s =
     (case parse_cov_line e line (initial_timestamp s) of
        Inl err \<Rightarrow> Inl (err, s)
      | Inr None \<Rightarrow> Inr s
      | Inr (Some (roundno, elapsed_time, cov, ft)) \<Rightarrow>
          Inr (s\<lparr>last_cov := cov, max_cov := max (max_cov s) cov,
                 last_ft := ft, max_ft := max (max_ft s) ft,
                 cov_over_time := cov_over_time s @ [(elapsed_time, cov)],
                 ft_over_time := ft_over_time s @ [(elapsed_time, ft)],
                 ttl_round := ttl_roundno_base s + roundno,
                 fuzz_statuses := fuzz_statuses s @ [(roundno, elapsed_time, cov, ft)]\<rparr>))"

definition stage_crash :: "env \<Rightarrow> string \<Rightarrow> pstate \<Rightarrow> stage_result" where
  "stage_crash e line s =
     (case parse_crash_line e line (initial_timestamp s) of
        Inl err \<Rightarrow> Inl (err, s)
      | Inr None \<Rightarrow> Inr s
      | Inr (Some (elapsed_time, crash)) \<Rightarrow>
          (let s1 = s\<lparr>log_crash_over_time := log_crash_over_time s @ [(elapsed_time, crash)]\<rparr>
           in case crash_2_sanitizer e crash of
                Inl err \<Rightarrow> Inl (err, s1)
              | Inr None \<Rightarrow> Inr s1
              | Inr (Some sanitizer) \<Rightarrow>
                  if sanitizer \<notin> seen_sanitizers s1 \<or> sanitizer = ''SINKPOINT''
                  then Inr (s1\<lparr>pending_crashes :=
                                  pending_crashes s1 @ [(elapsed_time, crash, sanitizer)]\<rparr>)
                  else Inr s1))"

definition stage_artifact :: "env \<Rightarrow> string \<Rightarrow> pstate \<Rightarrow> stage_result" where
  "stage_artifact e line s =
     (case parse_artifact_line e line (initial_timestamp s) of
        Inl err \<Rightarrow> Inl (err, s)
      | Inr None \<Rightarrow> Inr s
      | Inr (Some (elapsed_time, artifact)) \<Rightarrow>
          (let s1 = s\<lparr>artifact_over_time := artifact_over_time s @ [(elapsed_time, artifact)]\<rparr>
           in Inr (scan_pending elapsed_time artifact [] (pending_crashes s1) s1)))"

definition stage_exit :: "string \<Rightarrow> pstate \<Rightarrow> pstate" where
  "stage_exit line s =
     (if str_contains JAZZER_EXIT_LOG line then
        (let s1 = s\<lparr>ttl_roundno_base := ttl_round s\<rparr>
         in if fuzz_statuses s1 \<noteq> []
            then s1\<lparr>all_fuzz_statuses := all_fuzz_statuses s1 @ [fuzz_statuses s1],
                    fuzz_statuses := []\<rparr>
            else s1)
      else s)"

definition stage_sync :: "env \<Rightarrow> pstate \<Rightarrow> stage_result" where
  \<comment> \<open>\<^verbatim>\<open>sync_result(fuzz_data)\<close>, then the dump when \<^verbatim>\<open>need_dump\<close> is set\<close>
  "stage_sync e s =
     (let s1 = sync_result s
      in if need_dump s1
         then then_stage (dump_fuzz_data e s1) (\<lambda>s2. Inr (s2\<lparr>need_dump := False\<rparr>))
         else Inr s1)"

definition process_line :: "env \<Rightarrow> pstate \<Rightarrow> string \<Rightarrow> stage_result" where
  "process_line e s raw =
     (let line = strip raw in
      then_stage (stage_start e line s) (\<lambda>s1.
      then_stage (stage_cov e line s1) (\<lambda>s2.
      then_stage (stage_crash e line s2) (\<lambda>s3.
      then_stage (stage_artifact e line s3) (\<lambda>s4.
      stage_sync e (stage_exit line s4))))))"

fun run_lines :: "env \<Rightarrow> pstate \<Rightarrow> string list \<Rightarrow> stage_result" where
  \<comment> \<open>the \<^verbatim>\<open>for\<close> loop inside the \<^verbatim>\<open>try\<close>: an error leaves the loop\<close>
  "run_lines e s [] = Inr s"
| "run_lines e s (raw # rest) =
     (case process_line e s raw of
        Inl x \<Rightarrow> Inl x
      | Inr s' \<Rightarrow> run_lines e s' rest)"

definition parse_log_in_stream :: "env \<Rightarrow> string list \<Rightarrow> pstate" where
  \<comment> \<open>the state of the variables when the function returns\<close>
  "parse_log_in_stream e file_obj =
     (case run_lines e init_state file_obj of
        Inl (err, s) \<Rightarrow> s\<lparr>logged := logged s @ [err]\<rparr>
      | Inr s \<Rightarrow>
          if fuzz_statuses s \<noteq> []
          then s\<lparr>all_fuzz_statuses := all_fuzz_statuses s @ [fuzz_statuses s]\<rparr>
          else s)"

fun run_trace :: "env \<Rightarrow> pstate \<Rightarrow> string list \<Rightarrow> pstate list" where
  \<comment> \<open>the state at the end of each completed iteration of the loop\<close>
  "run_trace e s [] = []"
| "run_trace e s (raw # rest) =
     (case process_line e s raw of
        Inl x \<Rightarrow> []
      | Inr s' \<Rightarrow> s' # run_trace e s' rest)"

section \<open>Reference inputs\<close>

definition default_env :: env where
  \<comment> \<open>\<^verbatim>\<open>JAZZER_SINK_MODE\<close> unset, the default digit limit, a dump that never raises\<close>
  "default_env =
     \<lparr>JAZZER_SINK_MODE = [], int_max_str_digits = 4300, dump_error = (\<lambda>k. None)\<rparr>"


definition spec_classify :: "string \<Rightarrow> string" where
  \<comment> \<open>The classification as the specification words it, for comparison with
      \<open>scan_sanitizers\<close>: a first pass over the catalog for a verbatim match, then a second
      pass comparing the label and the crash text with their spaces removed.\<close>
  "spec_classify crash =
     (case find (\<lambda>label. str_contains label crash) SANITIZERS of
        Some label \<Rightarrow> label
      | None \<Rightarrow>
          (case find (\<lambda>label. str_contains (remove_spaces label) (remove_spaces crash))
                  SANITIZERS of
             Some label \<Rightarrow> label
           | None \<Rightarrow> ''UNKNOWN SANITIZER''))"

definition mixed_crash :: string where
  "mixed_crash = ''== Java Exception: com.code_intelligence.jazzer.api.FuzzerSecurityIssueCritical:IntegerOverflow after FuzzerSecurityIssueHigh: SQL Injection''"

definition sql_crash :: string where
  "sql_crash = ''== Java Exception: com.code_intelligence.jazzer.api.FuzzerSecurityIssueHigh: SQL Injection''"

definition sql_label :: string where
  "sql_label = ''FuzzerSecurityIssueHigh: SQL Injection''"

definition scenario_stream :: "string list" where
  \<comment> \<open>start banner, coverage sample, crash report, artifact\<close>
  "scenario_stream =
    [''1000 OpenJDK 64-Bit Server VM warning: Option CriticalJNINatives was deprecated in version 16.0 and will likely be removed in a future release.'',
     ''1010 #5 NEW cov: 100 ft: 50 corp: 1/1b'',
     ''1015 == Java Exception: com.code_intelligence.jazzer.api.FuzzerSecurityIssueHigh: SQL Injection'',
     ''1020 artifact_prefix=./; Test unit written to /out/artifacts/crash-abc123'']"

definition result_state :: "stage_result \<Rightarrow> pstate" where
  \<comment> \<open>the variables after a stage, whether it returned or raised\<close>
  "result_state r = (case r of Inl (err, s) \<Rightarrow> s | Inr s \<Rightarrow> s)"

definition class_count :: "string \<Rightarrow> triaged_crash list \<Rightarrow> nat" where
  "class_count c entries = length (filter (\<lambda>entry. fst (snd entry) = c) entries)"

definition triage_ok :: "pstate \<Rightarrow> bool" where
  \<comment> \<open>the invariant of the triage list: every triaged class is in the seen set, and no class
      but SINKPOINT is triaged twice\<close>
  "triage_ok s \<longleftrightarrow>
     (\<forall>entry \<in> set (log_triage_crash_over_time s). fst (snd entry) \<in> seen_sanitizers s)
     \<and> (\<forall>c. c \<noteq> ''SINKPOINT'' \<longrightarrow> class_count c (log_triage_crash_over_time s) \<le> 1)"

definition banner_1000 :: string where
  "banner_1000 = ''1000 OpenJDK 64-Bit Server VM warning: Option CriticalJNINatives was deprecated in version 16.0 and will likely be removed in a future release.''"

definition banner_2000 :: string where
  "banner_2000 = ''2000 OpenJDK 64-Bit Server VM warning: Option CriticalJNINatives was deprecated in version 16.0 and will likely be removed in a future release.''"

definition sql_crash_line_1030 :: string where
  "sql_crash_line_1030 = ''1030 == Java Exception: com.code_intelligence.jazzer.api.FuzzerSecurityIssueHigh: SQL Injection''"

definition two_pending_state :: pstate where
  "two_pending_state = init_state\<lparr>initial_timestamp := Some 1000,
      pending_crashes := [(Some 20, sql_crash, sql_label), (Some 5, mixed_crash, ''UNKNOWN SANITIZER'')]\<rparr>"

definition line_body :: "string \<Rightarrow> string" where
  \<comment> \<open>the line after its timestamp prefix, if it has one\<close>
  "line_body line = (case ts_prefix line of Some (ts, rest) \<Rightarrow> rest | None \<Rightarrow> line)"

definition line_kind :: "string \<Rightarrow> char option" where
  \<comment> \<open>the first character after the timestamp prefix: it decides which pattern can match\<close>
  "line_kind line = (case line_body line of [] \<Rightarrow> None | c # cs \<Rightarrow> Some c)"

definition after_banner_state :: pstate where
  "after_banner_state = init_state\<lparr>initial_timestamp := Some 1000,
      fuzz_data_scalars := Some (0, 0, 0, 0, 0),
      dumped := [Some \<lparr>fd_cov_over_time = [], fd_ft_over_time = [], fd_log_crash_over_time = [],
        fd_artifact_over_time = [], fd_log_triage_crash_over_time = [],
        fd_ttl_round = 0, fd_last_cov = 0, fd_last_ft = 0, fd_max_cov = 0, fd_max_ft = 0\<rparr>]\<rparr>"

definition pending_class :: "pending_crash \<Rightarrow> string" where
  "pending_class p = snd (snd p)"

fun accepted :: "string set \<Rightarrow> pending_crash list \<Rightarrow> pending_crash list" where
  \<comment> \<open>the matched crashes that produce a triaged entry, given the classes seen before\<close>
  "accepted seen [] = []"
| "accepted seen (p # ps) =
     (if pending_class p = ''SINKPOINT'' \<or> pending_class p \<notin> seen then [p] else [])
     @ accepted (insert (pending_class p) seen) ps"

definition triage_entry :: "string \<Rightarrow> pending_crash \<Rightarrow> triaged_crash" where
  "triage_entry artifact p = (fst p, snd (snd p), fst (snd p), artifact)"





definition importer_env :: env where
  "importer_env =
     \<lparr>JAZZER_SINK_MODE = ''1'', int_max_str_digits = 4300, dump_error = (\<lambda>k. Some NameError)\<rparr>"









text \<open>
  A line that raises: with the interpreter's default limit of 4300 digits, \<^verbatim>\<open>int\<close> raises
  ValueError on the round number of \<open>overlong_cov_line\<close>. \<open>logged_is l r\<close> says that the
  state of a stage result, raised or returned, has logged exactly \<open>l\<close>.
\<close>

definition overlong_cov_line :: string where
  \<comment> \<open>a legacy coverage line whose round number has 4301 digits\<close>
  "overlong_cov_line = CHR ''#'' # replicate 4301 CHR ''1'' @ '' cov: 1 ft: 1''"

definition one_cov_state :: pstate where
  "one_cov_state = init_state\<lparr>cov_over_time := [(None, 5)], ft_over_time := [(None, 7)],
      ttl_round := 1, last_cov := 5, last_ft := 7, max_cov := 5, max_ft := 7,
      fuzz_statuses := [(1, None, 5, 7)], fuzz_data_scalars := Some (1, 5, 7, 5, 7)\<rparr>"

definition logged_is :: "error list \<Rightarrow> stage_result \<Rightarrow> bool" where
  "logged_is l r = (case r of Inl (err, s) \<Rightarrow> logged s = l | Inr s \<Rightarrow> logged s = l)"

(*DEFS-END*)

section \<open>Facts about the text primitives\<close>

lemma strip_prefix_Some: "strip_prefix p s = Some r \<longleftrightarrow> s = p @ r"
  by (induction p s rule: strip_prefix.induct) auto

lemma str_contains_sublist: "str_contains sub s \<longleftrightarrow> sublist sub s"
  by (induction s) (auto simp: sublist_Cons_right)

lemma split_acc_nonempty: "\<exists>a rest. split_acc sep acc s = a # rest"
  by (induction s arbitrary: acc) auto

lemma split_acc_two: "sep \<in> set s \<Longrightarrow> \<exists>a b rest. split_acc sep acc s = a # b # rest"
proof (induction s arbitrary: acc)
  case Nil
  then show ?case by simp
next
  case (Cons c cs)
  show ?case
  proof (cases "c = sep")
    case True
    then show ?thesis using split_acc_nonempty[of sep "[]" cs] by auto
  next
    case False
    with Cons show ?thesis by auto
  qed
qed

section \<open>The crash extractor and the classifier\<close>

lemma old_crash_prefix:
  "OLD_LIBFUZZER_CRASH_LINE_PTRN line = Some crash \<Longrightarrow> \<exists>r. crash = ''== Java Exception:'' @ r"
  by (auto simp: OLD_LIBFUZZER_CRASH_LINE_PTRN_def split: option.splits)

lemma parse_crash_line_prefix:
  "parse_crash_line e line init = Inr (Some (t, crash)) \<Longrightarrow>
   \<exists>r. crash = ''== Java Exception:'' @ r"
  by (auto simp: parse_crash_line_def LIBFUZZER_CRASH_LINE_PTRN_def
      split: option.splits sum.splits prod.splits dest: old_crash_prefix)

lemma interesting_total:
  "CHR '':'' \<in> set crash \<Longrightarrow> \<exists>r. is_interesting_crash crash = Inr r"
  using split_acc_two[of "CHR '':''" crash "[]"]
  by (auto simp: is_interesting_crash_def py_split_def)

lemma crash_2_sanitizer_total:
  "CHR '':'' \<in> set crash \<Longrightarrow> \<exists>c. crash_2_sanitizer e crash = Inr c"
  using interesting_total[of crash]
  by (auto simp: crash_2_sanitizer_def split: bool.splits)

lemma parse_crash_line_colon:
  "parse_crash_line e line init = Inr (Some (t, crash)) \<Longrightarrow> CHR '':'' \<in> set crash"
  using parse_crash_line_prefix[of e line init t crash] by auto

text \<open>
  Claim C10. A crash text returned by the crash extractor starts with
  \<^verbatim>\<open>== Java Exception:\<close>, so it contains a colon, \<^verbatim>\<open>crash.split(":")\<close> has a second field,
  the interestingness check does not raise IndexError, and \<^verbatim>\<open>crash_2_sanitizer\<close> returns
  a value (in every environment) instead of raising.
\<close>

theorem extracted_crash_classification_total:
  assumes "parse_crash_line e line init = Inr (Some (t, crash))"
  shows "prefix ''== Java Exception:'' crash \<and> CHR '':'' \<in> set crash
    \<and> (\<exists>a field rest. py_split CHR '':'' crash = a # field # rest)
    \<and> (\<exists>r. is_interesting_crash crash = Inr r)
    \<and> (\<exists>c. crash_2_sanitizer e' crash = Inr c)"
proof -
  obtain r where r: "crash = ''== Java Exception:'' @ r"
    using parse_crash_line_prefix[OF assms] by blast
  then have colon: "CHR '':'' \<in> set crash" by simp
  have "prefix ''== Java Exception:'' crash" using r by (simp del: append.simps)
  moreover have "\<exists>a field rest. py_split CHR '':'' crash = a # field # rest"
    unfolding py_split_def using split_acc_two[OF colon] by blast
  ultimately show ?thesis
    using colon interesting_total[OF colon] crash_2_sanitizer_total[OF colon] by blast
qed

theorem extracted_crash_classification_total_witness:
  "parse_crash_line default_env
     ''1015 == Java Exception: com.code_intelligence.jazzer.api.FuzzerSecurityIssueHigh: SQL Injection''
     (Some 1000)
   = Inr (Some (Some 15,
       ''== Java Exception: com.code_intelligence.jazzer.api.FuzzerSecurityIssueHigh: SQL Injection''))
   \<and> prefix ''== Java Exception:''
       ''== Java Exception: com.code_intelligence.jazzer.api.FuzzerSecurityIssueHigh: SQL Injection''
   \<and> (\<exists>c. crash_2_sanitizer default_env
       ''== Java Exception: com.code_intelligence.jazzer.api.FuzzerSecurityIssueHigh: SQL Injection''
       = Inr c)"
proof -
  have h: "parse_crash_line default_env
     ''1015 == Java Exception: com.code_intelligence.jazzer.api.FuzzerSecurityIssueHigh: SQL Injection''
     (Some 1000)
   = Inr (Some (Some 15,
       ''== Java Exception: com.code_intelligence.jazzer.api.FuzzerSecurityIssueHigh: SQL Injection''))"
    by (simp add: parse_crash_line_def LIBFUZZER_CRASH_LINE_PTRN_def
        OLD_LIBFUZZER_CRASH_LINE_PTRN_def ts_prefix_def is_digit_def is_space_def py_int_def
        int_of_digits_def digit_val_def elapsed_def first_line_def newline_def default_env_def)
  show ?thesis
    using h extracted_crash_classification_total[OF h, of default_env] by blast
qed

section \<open>Classification order\<close>

lemma scan_sanitizers_find:
  "scan_sanitizers labels crash =
     (case find (\<lambda>label. sublist label crash \<or> sublist (remove_spaces label) crash) labels of
        Some label \<Rightarrow> label | None \<Rightarrow> ''UNKNOWN SANITIZER'')"
  by (induction labels) (simp_all add: str_contains_sublist)


lemma sql_interesting: "is_interesting_crash sql_crash = Inr True"
  by code_simp

lemma sql_find:
  "find (\<lambda>label. sublist label sql_crash \<or> sublist (remove_spaces label) sql_crash) SANITIZERS
   = Some sql_label"
  unfolding str_contains_sublist[symmetric]
  by code_simp

lemma mixed_interesting: "is_interesting_crash mixed_crash = Inr True"
  by code_simp

lemma mixed_code: "scan_sanitizers SANITIZERS mixed_crash = ''FuzzerSecurityIssueCritical: Integer Overflow''"
  by code_simp

lemma mixed_spec: "spec_classify mixed_crash = ''FuzzerSecurityIssueHigh: SQL Injection''"
  by code_simp


text \<open>
  Claim C4, as stated: classification of an interesting crash that is not a sink hit returns
  the first label found verbatim, falls back to the space-stripped comparison only when no
  label occurs verbatim anywhere, and returns \<^verbatim>\<open>UNKNOWN SANITIZER\<close> otherwise
  (\<open>spec_classify\<close>). The loop of \<^verbatim>\<open>crash_2_sanitizer\<close> tries both comparisons for one
  label before it moves to the next: a crash text holding an earlier label without its
  spaces and a later label verbatim is classified as the earlier label.
\<close>

theorem two_pass_counterexample:
  "\<not> is_of_jazzer_sink default_env mixed_crash
   \<and> is_interesting_crash mixed_crash = Inr True
   \<and> crash_2_sanitizer default_env mixed_crash = Inr (Some ''FuzzerSecurityIssueCritical: Integer Overflow'')
   \<and> spec_classify mixed_crash = ''FuzzerSecurityIssueHigh: SQL Injection''"
  using mixed_interesting mixed_code mixed_spec
  by (simp add: crash_2_sanitizer_def is_of_jazzer_sink_def default_env_def)


text \<open>
  Claim C4, amended: for a crash text that is interesting and not a sink hit,
  \<^verbatim>\<open>crash_2_sanitizer\<close> returns the first label of the catalog, in catalog order, that the
  crash text contains either verbatim or with the label's spaces removed (the crash text
  itself is compared unchanged), and \<^verbatim>\<open>UNKNOWN SANITIZER\<close> when no label matches either way.
\<close>

theorem crash_2_sanitizer_first_label:
  assumes "\<not> is_of_jazzer_sink e crash" and "is_interesting_crash crash = Inr True"
  shows "crash_2_sanitizer e crash =
     Inr (Some (case find (\<lambda>label. sublist label crash \<or> sublist (remove_spaces label) crash)
                       SANITIZERS of
                  Some label \<Rightarrow> label | None \<Rightarrow> ''UNKNOWN SANITIZER''))"
  using assms by (simp add: crash_2_sanitizer_def scan_sanitizers_find)


theorem crash_2_sanitizer_first_label_witness:
  "\<not> is_of_jazzer_sink default_env sql_crash
   \<and> is_interesting_crash sql_crash = Inr True
   \<and> crash_2_sanitizer default_env sql_crash = Inr (Some sql_label)"
proof -
  have h1: "\<not> is_of_jazzer_sink default_env sql_crash"
    by (simp add: is_of_jazzer_sink_def default_env_def)
  show ?thesis
    using h1 sql_interesting crash_2_sanitizer_first_label[OF h1 sql_interesting]
    by (simp add: sql_find)
qed

section \<open>Deduplication by class\<close>

lemma class_count_zero:
  "\<forall>entry \<in> set entries. fst (snd entry) \<noteq> c \<Longrightarrow> class_count c entries = 0"
  by (induction entries) (auto simp: class_count_def)

lemma class_count_snoc:
  "class_count c (entries @ [(t, cls, x, a)]) = class_count c entries + (if cls = c then 1 else 0)"
  by (simp add: class_count_def)

lemma triage_ok_add:
  assumes "triage_ok s" and "sanitizer \<notin> seen_sanitizers s \<or> sanitizer = ''SINKPOINT''"
  shows "triage_ok (s\<lparr>log_triage_crash_over_time :=
             log_triage_crash_over_time s @ [(crash_time, sanitizer, crash, artifact)],
           seen_sanitizers := insert sanitizer (seen_sanitizers s),
           need_dump := True\<rparr>)"
proof -
  have seen: "\<forall>entry \<in> set (log_triage_crash_over_time s). fst (snd entry) \<in> seen_sanitizers s"
    and cnt: "\<And>c. c \<noteq> ''SINKPOINT'' \<Longrightarrow> class_count c (log_triage_crash_over_time s) \<le> 1"
    using assms(1) by (auto simp: triage_ok_def)
  have "class_count c (log_triage_crash_over_time s @ [(crash_time, sanitizer, crash, artifact)]) \<le> 1"
    if c: "c \<noteq> ''SINKPOINT''" for c
  proof (cases "sanitizer = c")
    case True
    with c assms(2) have "c \<notin> seen_sanitizers s" by auto
    with seen have "\<forall>entry \<in> set (log_triage_crash_over_time s). fst (snd entry) \<noteq> c" by auto
    then have "class_count c (log_triage_crash_over_time s) = 0" by (rule class_count_zero)
    with True show ?thesis by (simp add: class_count_snoc)
  next
    case False
    with cnt[OF c] show ?thesis by (simp add: class_count_snoc)
  qed
  with seen show ?thesis by (auto simp: triage_ok_def)
qed

lemma triage_ok_pending [simp]: "triage_ok (s\<lparr>pending_crashes := p\<rparr>) = triage_ok s"
  by (simp add: triage_ok_def)

lemma scan_pending_ok:
  "triage_ok s \<Longrightarrow> triage_ok (scan_pending elapsed_time artifact kept pend s)"
proof (induction pend arbitrary: kept s)
  case Nil
  then show ?case by simp
next
  case (Cons p pend)
  obtain crash_time crash sanitizer where p: "p = (crash_time, crash, sanitizer)"
    by (cases p) auto
  show ?case
    using Cons.prems Cons.IH triage_ok_add[OF Cons.prems]
    by (simp add: p)
qed

lemma stage_start_ok: "triage_ok s \<Longrightarrow> triage_ok (result_state (stage_start e line s))"
  by (auto simp: stage_start_def result_state_def triage_ok_def split: option.splits sum.splits)

lemma stage_cov_ok: "triage_ok s \<Longrightarrow> triage_ok (result_state (stage_cov e line s))"
  by (auto simp: stage_cov_def result_state_def triage_ok_def split: option.splits sum.splits)

lemma stage_crash_ok: "triage_ok s \<Longrightarrow> triage_ok (result_state (stage_crash e line s))"
  by (auto simp: stage_crash_def result_state_def triage_ok_def Let_def split: option.splits sum.splits)

lemma stage_artifact_ok: "triage_ok s \<Longrightarrow> triage_ok (result_state (stage_artifact e line s))"
proof -
  assume ok: "triage_ok s"
  have "triage_ok (s\<lparr>artifact_over_time := x\<rparr>)" for x using ok by (simp add: triage_ok_def)
  then show ?thesis
    using ok by (auto simp: stage_artifact_def result_state_def Let_def
        split: option.splits sum.splits intro!: scan_pending_ok)
qed

lemma stage_exit_ok: "triage_ok s \<Longrightarrow> triage_ok (stage_exit line s)"
  by (auto simp: stage_exit_def triage_ok_def Let_def)

lemma stage_sync_ok: "triage_ok s \<Longrightarrow> triage_ok (result_state (stage_sync e s))"
  by (auto simp: stage_sync_def sync_result_def dump_fuzz_data_def triage_ok_def Let_def
      then_stage_def result_state_def split: option.splits)

lemma result_state_then:
  "result_state (then_stage r f) = (case r of Inl (err, s) \<Rightarrow> s | Inr s \<Rightarrow> result_state (f s))"
  by (auto simp: then_stage_def result_state_def split: sum.splits)

lemma then_stage_ok:
  assumes "triage_ok (result_state r)" and "\<And>s. triage_ok s \<Longrightarrow> triage_ok (result_state (f s))"
  shows "triage_ok (result_state (then_stage r f))"
  using assms by (cases r) (auto simp: then_stage_def result_state_def)

lemma process_line_ok: "triage_ok s \<Longrightarrow> triage_ok (result_state (process_line e s raw))"
  unfolding process_line_def Let_def
  by (intro then_stage_ok stage_start_ok stage_cov_ok stage_crash_ok stage_artifact_ok
        stage_sync_ok stage_exit_ok)

lemma run_lines_ok: "triage_ok s \<Longrightarrow> triage_ok (result_state (run_lines e s file_obj))"
proof (induction file_obj arbitrary: s)
  case Nil
  then show ?case by (simp add: result_state_def)
next
  case (Cons raw rest)
  show ?case
  proof (cases "process_line e s raw")
    case (Inl x)
    with process_line_ok[OF Cons.prems, of e raw] show ?thesis by (simp add: result_state_def)
  next
    case (Inr s')
    with process_line_ok[OF Cons.prems, of e raw] have "triage_ok s'" by (simp add: result_state_def)
    with Inr Cons.IH show ?thesis by simp
  qed
qed

lemma init_ok: "triage_ok init_state"
  by (simp add: triage_ok_def init_state_def class_count_def)

lemma parse_log_in_stream_ok: "triage_ok (parse_log_in_stream e file_obj)"
proof -
  have "triage_ok (result_state (run_lines e init_state file_obj))"
    by (rule run_lines_ok[OF init_ok])
  then show ?thesis
    by (auto simp: parse_log_in_stream_def result_state_def triage_ok_def split: sum.splits)
qed


text \<open>
  Claim C1. For every sanitizer class other than SINKPOINT, every environment and every
  input stream, the list \<^verbatim>\<open>log_triage_crash_over_time\<close> holds at most one entry of that
  class when \<^verbatim>\<open>parse_log_in_stream\<close> returns, also when an error ended the loop early.
\<close>

theorem at_most_one_triage_per_class:
  assumes "c \<noteq> ''SINKPOINT''"
  shows "length (filter (\<lambda>entry. fst (snd entry) = c)
           (log_triage_crash_over_time (parse_log_in_stream e file_obj))) \<le> 1"
  using parse_log_in_stream_ok[of e file_obj] assms
  by (simp add: triage_ok_def class_count_def)


lemma scenario_triage:
  "log_triage_crash_over_time (parse_log_in_stream default_env scenario_stream)
   = [(Some 15, sql_label, sql_crash, ''crash-abc123'')]"
  by code_simp

theorem at_most_one_triage_per_class_witness:
  "sql_label \<noteq> ''SINKPOINT''
   \<and> length (filter (\<lambda>entry. fst (snd entry) = sql_label)
        (log_triage_crash_over_time (parse_log_in_stream default_env scenario_stream))) \<le> 1
   \<and> log_triage_crash_over_time (parse_log_in_stream default_env scenario_stream)
      = [(Some 15, sql_label, sql_crash, ''crash-abc123'')]"
proof -
  have h: "sql_label \<noteq> ''SINKPOINT''" by (simp add: sql_label_def)
  show ?thesis
    using h at_most_one_triage_per_class[OF h, of default_env scenario_stream] scenario_triage
    by simp
qed

section \<open>Queueing crash reports\<close>

text \<open>
  Claim C5, as stated: every crash report with a classification other than \<^verbatim>\<open>None\<close> is
  appended to the pending queue, whether or not its class has been triaged. After the class
  of a crash has been triaged, a further crash line of that class is recorded in
  \<^verbatim>\<open>log_crash_over_time\<close> and not queued.
\<close>

theorem seen_class_not_queued_counterexample:
  "parse_crash_line default_env sql_crash_line_1030 (Some 1000) = Inr (Some (Some 30, sql_crash))
   \<and> crash_2_sanitizer default_env sql_crash = Inr (Some sql_label)
   \<and> pending_crashes (parse_log_in_stream default_env (scenario_stream @ [sql_crash_line_1030])) = []
   \<and> log_crash_over_time (parse_log_in_stream default_env (scenario_stream @ [sql_crash_line_1030]))
       = [(Some 15, sql_crash), (Some 30, sql_crash)]"
  by code_simp

text \<open>
  Claim C5, amended: a crash report with a classification other than \<^verbatim>\<open>None\<close> is always
  appended to \<^verbatim>\<open>log_crash_over_time\<close>; it is appended to the pending queue exactly when
  its class is SINKPOINT or is not yet in the seen set. Deduplication is applied when the
  crash line is read and again when an artifact is matched.
\<close>

theorem crash_queued_unless_seen:
  assumes "parse_crash_line e line (initial_timestamp s) = Inr (Some (elapsed_time, crash))"
    and "crash_2_sanitizer e crash = Inr (Some sanitizer)"
  shows "\<exists>s'. stage_crash e line s = Inr s'
     \<and> log_crash_over_time s' = log_crash_over_time s @ [(elapsed_time, crash)]
     \<and> pending_crashes s' =
         (if sanitizer \<notin> seen_sanitizers s \<or> sanitizer = ''SINKPOINT''
          then pending_crashes s @ [(elapsed_time, crash, sanitizer)]
          else pending_crashes s)"
  using assms by (simp add: stage_crash_def Let_def)

theorem crash_queued_unless_seen_witness:
  "parse_crash_line default_env sql_crash_line_1030
      (initial_timestamp (init_state\<lparr>initial_timestamp := Some 1000, seen_sanitizers := {sql_label}\<rparr>))
     = Inr (Some (Some 30, sql_crash))
   \<and> crash_2_sanitizer default_env sql_crash = Inr (Some sql_label)
   \<and> (\<exists>s'. stage_crash default_env sql_crash_line_1030
          (init_state\<lparr>initial_timestamp := Some 1000, seen_sanitizers := {sql_label}\<rparr>) = Inr s'
        \<and> log_crash_over_time s' = [(Some 30, sql_crash)]
        \<and> pending_crashes s' = [])"
proof -
  have h1: "parse_crash_line default_env sql_crash_line_1030
      (initial_timestamp (init_state\<lparr>initial_timestamp := Some 1000, seen_sanitizers := {sql_label}\<rparr>))
     = Inr (Some (Some 30, sql_crash))"
    by code_simp
  have h2: "crash_2_sanitizer default_env sql_crash = Inr (Some sql_label)"
    by code_simp
  have h3: "sql_label \<noteq> ''SINKPOINT''"
    by (simp add: sql_label_def)
  have h4: "seen_sanitizers (init_state\<lparr>initial_timestamp := Some 1000, seen_sanitizers := {sql_label}\<rparr>)
      = {sql_label}"
    and h5: "pending_crashes (init_state\<lparr>initial_timestamp := Some 1000, seen_sanitizers := {sql_label}\<rparr>)
      = []"
    and h6: "log_crash_over_time (init_state\<lparr>initial_timestamp := Some 1000, seen_sanitizers := {sql_label}\<rparr>)
      = []"
    by (simp_all add: init_state_def)
  from crash_queued_unless_seen[OF h1 h2] obtain s' where
    "stage_crash default_env sql_crash_line_1030
       (init_state\<lparr>initial_timestamp := Some 1000, seen_sanitizers := {sql_label}\<rparr>) = Inr s'"
    "log_crash_over_time s' = [(Some 30, sql_crash)]"
    "pending_crashes s' = []"
    unfolding h4 h5 h6 using h3 by auto
  with h1 h2 show ?thesis by blast
qed

section \<open>Which extractor can match a line\<close>

lemma ts_prefix_SomeD:
  assumes "ts_prefix line = Some (ts, rest)"
  shows "\<exists>d ds c. ts = d # ds \<and> is_digit d \<and> is_space c \<and> line = d # ds @ c # rest"
proof -
  from assms obtain c where c: "dropWhile is_digit line = c # rest" "is_space c"
    and ts: "ts = takeWhile is_digit line" "ts \<noteq> []"
    by (auto simp: ts_prefix_def split: list.splits if_splits)
  have line: "line = ts @ c # rest"
    using takeWhile_dropWhile_id[of is_digit line] c(1) ts(1) by simp
  from ts(2) obtain d ds where dd: "ts = d # ds" by (auto simp: neq_Nil_conv)
  have "d \<in> set (takeWhile is_digit line)" using dd ts(1) by simp
  then have "is_digit d" by (rule set_takeWhileD[THEN conjunct2])
  with dd c(2) line show ?thesis by auto
qed

lemma digit_not_marker:
  "is_digit d \<Longrightarrow> d \<noteq> CHR ''#'' \<and> d \<noteq> CHR ''='' \<and> d \<noteq> CHR ''a''"
  by (auto simp: is_digit_def)

lemma ts_prefix_None_no_digit: "\<not> is_digit c \<Longrightarrow> ts_prefix (c # cs) = None"
  by (simp add: ts_prefix_def)

lemma old_cov_hd: "OLD_LIBFUZZER_COV_LINE_PTRN line = Some x \<Longrightarrow> \<exists>r. line = CHR ''#'' # r"
  by (cases line) (auto simp: OLD_LIBFUZZER_COV_LINE_PTRN_def split: option.splits if_splits)

lemma old_crash_hd: "OLD_LIBFUZZER_CRASH_LINE_PTRN line = Some x \<Longrightarrow> \<exists>r. line = CHR ''='' # r"
  by (cases line) (auto simp: OLD_LIBFUZZER_CRASH_LINE_PTRN_def split: option.splits if_splits)

lemma old_artifact_hd: "OLD_CRASH_ARTIFACT_LINE_PTRN line = Some x \<Longrightarrow> \<exists>r. line = CHR ''a'' # r"
  by (cases line) (auto simp: OLD_CRASH_ARTIFACT_LINE_PTRN_def split: option.splits if_splits)

lemma start_banner_hd: "match_pat start_banner rest = Some x \<Longrightarrow> \<exists>r. rest = CHR ''O'' # r"
  by (cases rest) (auto simp: start_banner_def split: if_splits)

lemma kind_of_plain: "\<not> is_digit c \<Longrightarrow> line_kind (c # cs) = Some c"
  by (simp add: line_kind_def line_body_def ts_prefix_None_no_digit)

lemma cov_pattern_kind:
  "LIBFUZZER_COV_LINE_PTRN line \<noteq> None \<or> OLD_LIBFUZZER_COV_LINE_PTRN line \<noteq> None
   \<Longrightarrow> line_kind line = Some CHR ''#''"
proof (cases "ts_prefix line")
  case None
  assume "LIBFUZZER_COV_LINE_PTRN line \<noteq> None \<or> OLD_LIBFUZZER_COV_LINE_PTRN line \<noteq> None"
  with None have "OLD_LIBFUZZER_COV_LINE_PTRN line \<noteq> None"
    by (simp add: LIBFUZZER_COV_LINE_PTRN_def)
  then obtain r where "line = CHR ''#'' # r" using old_cov_hd by blast
  with None show ?thesis by (simp add: line_kind_def line_body_def)
next
  case (Some p)
  obtain ts rest where p: "p = (ts, rest)" by (cases p)
  assume a: "LIBFUZZER_COV_LINE_PTRN line \<noteq> None \<or> OLD_LIBFUZZER_COV_LINE_PTRN line \<noteq> None"
  from ts_prefix_SomeD[OF Some[unfolded p]] obtain d r where d: "line = d # r" "is_digit d" by auto
  have "OLD_LIBFUZZER_COV_LINE_PTRN line = None"
  proof (rule ccontr)
    assume "OLD_LIBFUZZER_COV_LINE_PTRN line \<noteq> None"
    then obtain r' where "line = CHR ''#'' # r'" using old_cov_hd by blast
    with d digit_not_marker show False by auto
  qed
  with a have "LIBFUZZER_COV_LINE_PTRN line \<noteq> None" by simp
  then have "OLD_LIBFUZZER_COV_LINE_PTRN rest \<noteq> None"
    using Some p by (auto simp: LIBFUZZER_COV_LINE_PTRN_def split: option.splits)
  then obtain r' where "rest = CHR ''#'' # r'" using old_cov_hd by blast
  with Some p show ?thesis by (simp add: line_kind_def line_body_def)
qed

lemma crash_pattern_kind:
  "LIBFUZZER_CRASH_LINE_PTRN line \<noteq> None \<or> OLD_LIBFUZZER_CRASH_LINE_PTRN line \<noteq> None
   \<Longrightarrow> line_kind line = Some CHR ''=''"
proof (cases "ts_prefix line")
  case None
  assume "LIBFUZZER_CRASH_LINE_PTRN line \<noteq> None \<or> OLD_LIBFUZZER_CRASH_LINE_PTRN line \<noteq> None"
  with None have "OLD_LIBFUZZER_CRASH_LINE_PTRN line \<noteq> None"
    by (simp add: LIBFUZZER_CRASH_LINE_PTRN_def)
  then obtain r where "line = CHR ''='' # r" using old_crash_hd by blast
  with None show ?thesis by (simp add: line_kind_def line_body_def)
next
  case (Some p)
  obtain ts rest where p: "p = (ts, rest)" by (cases p)
  assume a: "LIBFUZZER_CRASH_LINE_PTRN line \<noteq> None \<or> OLD_LIBFUZZER_CRASH_LINE_PTRN line \<noteq> None"
  from ts_prefix_SomeD[OF Some[unfolded p]] obtain d r where d: "line = d # r" "is_digit d" by auto
  have "OLD_LIBFUZZER_CRASH_LINE_PTRN line = None"
  proof (rule ccontr)
    assume "OLD_LIBFUZZER_CRASH_LINE_PTRN line \<noteq> None"
    then obtain r' where "line = CHR ''='' # r'" using old_crash_hd by blast
    with d digit_not_marker show False by auto
  qed
  with a have "LIBFUZZER_CRASH_LINE_PTRN line \<noteq> None" by simp
  then have "OLD_LIBFUZZER_CRASH_LINE_PTRN rest \<noteq> None"
    using Some p by (auto simp: LIBFUZZER_CRASH_LINE_PTRN_def split: option.splits)
  then obtain r' where "rest = CHR ''='' # r'" using old_crash_hd by blast
  with Some p show ?thesis by (simp add: line_kind_def line_body_def)
qed

lemma artifact_pattern_kind:
  "CRASH_ARTIFACT_LINE_PTRN line \<noteq> None \<or> OLD_CRASH_ARTIFACT_LINE_PTRN line \<noteq> None
   \<Longrightarrow> line_kind line = Some CHR ''a''"
proof (cases "ts_prefix line")
  case None
  assume "CRASH_ARTIFACT_LINE_PTRN line \<noteq> None \<or> OLD_CRASH_ARTIFACT_LINE_PTRN line \<noteq> None"
  with None have "OLD_CRASH_ARTIFACT_LINE_PTRN line \<noteq> None"
    by (simp add: CRASH_ARTIFACT_LINE_PTRN_def)
  then obtain r where "line = CHR ''a'' # r" using old_artifact_hd by blast
  with None show ?thesis by (simp add: line_kind_def line_body_def)
next
  case (Some p)
  obtain ts rest where p: "p = (ts, rest)" by (cases p)
  assume a: "CRASH_ARTIFACT_LINE_PTRN line \<noteq> None \<or> OLD_CRASH_ARTIFACT_LINE_PTRN line \<noteq> None"
  from ts_prefix_SomeD[OF Some[unfolded p]] obtain d r where d: "line = d # r" "is_digit d" by auto
  have "OLD_CRASH_ARTIFACT_LINE_PTRN line = None"
  proof (rule ccontr)
    assume "OLD_CRASH_ARTIFACT_LINE_PTRN line \<noteq> None"
    then obtain r' where "line = CHR ''a'' # r'" using old_artifact_hd by blast
    with d digit_not_marker show False by auto
  qed
  with a have "CRASH_ARTIFACT_LINE_PTRN line \<noteq> None" by simp
  then have "OLD_CRASH_ARTIFACT_LINE_PTRN rest \<noteq> None"
    using Some p by (auto simp: CRASH_ARTIFACT_LINE_PTRN_def split: option.splits)
  then obtain r' where "rest = CHR ''a'' # r'" using old_artifact_hd by blast
  with Some p show ?thesis by (simp add: line_kind_def line_body_def)
qed

lemma start_pattern_kind:
  assumes "FUZZ_START_LINE_PTRN line \<noteq> None"
  shows "line_kind line = Some CHR ''O''"
proof -
  from assms obtain ts rest x where t: "ts_prefix line = Some (ts, rest)"
    and m: "match_pat start_banner rest = Some x"
    by (auto simp: FUZZ_START_LINE_PTRN_def split: option.splits)
  from start_banner_hd[OF m] obtain r where "rest = CHR ''O'' # r" by blast
  with t show ?thesis by (simp add: line_kind_def line_body_def)
qed

lemma parse_cov_line_kind:
  "parse_cov_line e line init \<noteq> Inr None \<Longrightarrow> line_kind line = Some CHR ''#''"
  by (rule cov_pattern_kind) (auto simp: parse_cov_line_def split: option.splits)

lemma parse_crash_line_kind:
  "parse_crash_line e line init \<noteq> Inr None \<Longrightarrow> line_kind line = Some CHR ''=''"
  by (rule crash_pattern_kind) (auto simp: parse_crash_line_def split: option.splits)

lemma parse_artifact_line_kind:
  "parse_artifact_line e line init \<noteq> Inr None \<Longrightarrow> line_kind line = Some CHR ''a''"
  by (rule artifact_pattern_kind) (auto simp: parse_artifact_line_def split: option.splits)


lemma stage_cov_kind:
  "line_kind line \<noteq> Some CHR ''#'' \<Longrightarrow> stage_cov e line s = Inr s"
proof -
  assume "line_kind line \<noteq> Some CHR ''#''"
  with parse_cov_line_kind[of e line "initial_timestamp s"]
  have "parse_cov_line e line (initial_timestamp s) = Inr None" by blast
  then show ?thesis by (simp add: stage_cov_def)
qed

lemma stage_crash_kind:
  "line_kind line \<noteq> Some CHR ''='' \<Longrightarrow> stage_crash e line s = Inr s"
proof -
  assume "line_kind line \<noteq> Some CHR ''=''"
  with parse_crash_line_kind[of e line "initial_timestamp s"]
  have "parse_crash_line e line (initial_timestamp s) = Inr None" by blast
  then show ?thesis by (simp add: stage_crash_def)
qed

lemma stage_artifact_kind:
  "line_kind line \<noteq> Some CHR ''a'' \<Longrightarrow> stage_artifact e line s = Inr s"
proof -
  assume "line_kind line \<noteq> Some CHR ''a''"
  with parse_artifact_line_kind[of e line "initial_timestamp s"]
  have "parse_artifact_line e line (initial_timestamp s) = Inr None" by blast
  then show ?thesis by (simp add: stage_artifact_def)
qed

section \<open>Stages that leave the triage state alone\<close>

lemma stage_exit_fields:
  "initial_timestamp (stage_exit line s) = initial_timestamp s"
  "need_dump (stage_exit line s) = need_dump s"
  "dumped (stage_exit line s) = dumped s"
  "log_triage_crash_over_time (stage_exit line s) = log_triage_crash_over_time s"
  "pending_crashes (stage_exit line s) = pending_crashes s"
  "seen_sanitizers (stage_exit line s) = seen_sanitizers s"
  "ttl_round (stage_exit line s) = ttl_round s"
  by (simp_all add: stage_exit_def Let_def)

lemma stage_sync_quiet:
  "need_dump s = False \<Longrightarrow> stage_sync e s = Inr (sync_result s)"
  by (simp add: stage_sync_def Let_def sync_result_def)

lemma sync_result_fields:
  "initial_timestamp (sync_result s) = initial_timestamp s"
  "need_dump (sync_result s) = need_dump s"
  "dumped (sync_result s) = dumped s"
  "log_triage_crash_over_time (sync_result s) = log_triage_crash_over_time s"
  "pending_crashes (sync_result s) = pending_crashes s"
  "seen_sanitizers (sync_result s) = seen_sanitizers s"
  "ttl_round (sync_result s) = ttl_round s"
  "ttl_roundno_base (sync_result s) = ttl_roundno_base s"
  by (simp_all add: sync_result_def)

lemma stage_sync_need_dump: "stage_sync e s = Inr s' \<Longrightarrow> need_dump s' = False"
  by (auto simp: stage_sync_def Let_def sync_result_def dump_fuzz_data_def then_stage_def
      split: if_splits option.splits)

lemma then_stage_Inr:
  "then_stage r f = Inr s' \<longleftrightarrow> (\<exists>s. r = Inr s \<and> f s = Inr s')"
  by (cases r) (auto simp: then_stage_def)

lemma process_line_need_dump: "process_line e s raw = Inr s' \<Longrightarrow> need_dump s' = False"
  by (auto simp: process_line_def Let_def then_stage_Inr dest: stage_sync_need_dump)

lemma run_lines_need_dump:
  "need_dump s = False \<Longrightarrow> run_lines e s file_obj = Inr s' \<Longrightarrow> need_dump s' = False"
proof (induction file_obj arbitrary: s)
  case Nil
  then show ?case by simp
next
  case (Cons raw rest)
  then show ?case
    by (auto split: sum.splits dest: process_line_need_dump)
qed

lemma run_lines_append:
  "run_lines e s (xs @ ys) =
     (case run_lines e s xs of Inl x \<Rightarrow> Inl x | Inr s' \<Rightarrow> run_lines e s' ys)"
  by (induction xs arbitrary: s) (auto split: sum.splits)

lemma banner_line_process:
  assumes "FUZZ_START_LINE_PTRN (strip raw) \<noteq> None"
  shows "process_line e s raw =
     then_stage (stage_start e (strip raw) s) (\<lambda>s1. stage_sync e (stage_exit (strip raw) s1))"
proof -
  have k: "line_kind (strip raw) = Some CHR ''O''"
    using assms by (rule start_pattern_kind)
  show ?thesis
    by (cases "stage_start e (strip raw) s")
       (simp_all add: process_line_def Let_def then_stage_def
          stage_cov_kind stage_crash_kind stage_artifact_kind k)
qed

lemma dumped_parse:
  "run_lines e init_state file_obj = Inr s \<Longrightarrow> dumped (parse_log_in_stream e file_obj) = dumped s"
  by (simp add: parse_log_in_stream_def)

section \<open>Run-start banners\<close>

text \<open>
  Claim C9, as stated: a run-start banner read after the baseline has been set still sets the
  needs-dump flag, so that every new run segment triggers a dump. With the baseline set, the
  start pattern is not tried at all: the second banner leaves the flag unset and the stream of
  two banners dumps once, as the stream of one banner does.
\<close>

theorem second_banner_counterexample:
  "FUZZ_START_LINE_PTRN banner_2000 = Some ''2000''
   \<and> stage_start default_env banner_2000 (init_state\<lparr>initial_timestamp := Some 1000\<rparr>)
       = Inr (init_state\<lparr>initial_timestamp := Some 1000\<rparr>)
   \<and> need_dump (init_state\<lparr>initial_timestamp := Some 1000\<rparr>) = False
   \<and> length (dumped (parse_log_in_stream default_env [banner_1000])) = 1
   \<and> length (dumped (parse_log_in_stream default_env [banner_1000, banner_2000])) = 1"
  by code_simp

text \<open>
  Claim C9, amended: a run-start banner line sets the baseline and triggers a dump only while
  the baseline is still unset. Once the baseline is set, a later banner line is processed
  without a dump: the whole line leaves the baseline, the needs-dump flag (unset at the end of
  every line) and the list of dumped documents as they were, so the stream extended by such a
  line has dumped exactly what the stream before it has. The first banner, read with the
  baseline unset, sets the baseline and, when the dump call returns, adds one document.
\<close>

theorem banner_dumps_only_at_baseline:
  assumes "run_lines e init_state pre = Inr s1"
    and "FUZZ_START_LINE_PTRN (strip raw) = Some g"
  shows "(initial_timestamp s1 \<noteq> None \<longrightarrow>
            (\<exists>s2. process_line e s1 raw = Inr s2
                 \<and> initial_timestamp s2 = initial_timestamp s1
                 \<and> need_dump s2 = False
                 \<and> dumped s2 = dumped s1
                 \<and> dumped (parse_log_in_stream e (pre @ [raw]))
                     = dumped (parse_log_in_stream e pre)))
       \<and> (initial_timestamp s1 = None \<and> py_int e g = Inr t
            \<and> dump_error e (length (dumped s1)) = None \<longrightarrow>
            (\<exists>s2 doc. process_line e s1 raw = Inr s2
                 \<and> initial_timestamp s2 = Some t
                 \<and> need_dump s2 = False
                 \<and> dumped s2 = dumped s1 @ [doc]
                 \<and> dumped (parse_log_in_stream e (pre @ [raw]))
                     = dumped (parse_log_in_stream e pre) @ [doc]))"
proof -
  have nd: "need_dump s1 = False"
    using run_lines_need_dump[OF _ assms(1)] by (simp add: init_state_def)
  have pl: "process_line e s1 raw =
     then_stage (stage_start e (strip raw) s1) (\<lambda>s. stage_sync e (stage_exit (strip raw) s))"
    using assms(2) by (intro banner_line_process) simp
  have app: "run_lines e init_state (pre @ [raw]) = process_line e s1 raw"
    using assms(1) by (simp add: run_lines_append split: sum.splits)
  have later: "\<exists>s2. process_line e s1 raw = Inr s2
                 \<and> initial_timestamp s2 = initial_timestamp s1
                 \<and> need_dump s2 = False
                 \<and> dumped s2 = dumped s1
                 \<and> dumped (parse_log_in_stream e (pre @ [raw]))
                     = dumped (parse_log_in_stream e pre)"
    if ts: "initial_timestamp s1 \<noteq> None"
  proof -
    have st: "stage_start e (strip raw) s1 = Inr s1"
      using ts by (auto simp: stage_start_def)
    have p: "process_line e s1 raw = Inr (sync_result (stage_exit (strip raw) s1))"
      using nd by (simp add: pl st then_stage_def stage_sync_quiet stage_exit_fields)
    show ?thesis
      using nd assms(1) app
      by (simp add: p sync_result_fields stage_exit_fields dumped_parse)
  qed
  have first: "\<exists>s2 doc. process_line e s1 raw = Inr s2
                 \<and> initial_timestamp s2 = Some t
                 \<and> need_dump s2 = False
                 \<and> dumped s2 = dumped s1 @ [doc]
                 \<and> dumped (parse_log_in_stream e (pre @ [raw]))
                     = dumped (parse_log_in_stream e pre) @ [doc]"
    if h: "initial_timestamp s1 = None" "py_int e g = Inr t"
      "dump_error e (length (dumped s1)) = None"
  proof -
    let ?s = "s1\<lparr>initial_timestamp := Some t, need_dump := True\<rparr>"
    have st: "stage_start e (strip raw) s1 = Inr ?s"
      using h assms(2) by (simp add: stage_start_def)
    obtain s2 where s2: "stage_sync e (stage_exit (strip raw) ?s) = Inr s2"
      and f: "initial_timestamp s2 = Some t" "need_dump s2 = False"
        "\<exists>doc. dumped s2 = dumped s1 @ [doc]"
      using h(3)
      by (simp add: stage_sync_def Let_def sync_result_def dump_fuzz_data_def then_stage_def
          stage_exit_fields)
    have p: "process_line e s1 raw = Inr s2"
      by (simp add: pl st then_stage_def s2)
    from f(3) obtain doc where doc: "dumped s2 = dumped s1 @ [doc]" by blast
    show ?thesis
      using f(1,2) doc assms(1) app
      by (auto simp: p dumped_parse)
  qed
  from later first show ?thesis by blast
qed

theorem banner_dumps_only_at_baseline_witness:
  "run_lines default_env init_state [banner_1000] = Inr after_banner_state
   \<and> FUZZ_START_LINE_PTRN (strip banner_2000) = Some ''2000''
   \<and> initial_timestamp after_banner_state \<noteq> None
   \<and> dumped (parse_log_in_stream default_env ([banner_1000] @ [banner_2000]))
       = dumped (parse_log_in_stream default_env [banner_1000])
   \<and> run_lines default_env init_state [] = Inr init_state
   \<and> FUZZ_START_LINE_PTRN (strip banner_1000) = Some ''1000''
   \<and> initial_timestamp init_state = None
   \<and> py_int default_env ''1000'' = Inr 1000
   \<and> dump_error default_env (length (dumped init_state)) = None
   \<and> (\<exists>doc. dumped (parse_log_in_stream default_env ([] @ [banner_1000]))
         = dumped (parse_log_in_stream default_env []) @ [doc])"
proof -
  have a1: "run_lines default_env init_state [banner_1000] = Inr after_banner_state"
    by code_simp
  have a2: "FUZZ_START_LINE_PTRN (strip banner_2000) = Some ''2000''"
    by code_simp
  have a3: "initial_timestamp after_banner_state \<noteq> None"
    by (simp add: after_banner_state_def)
  have b1: "run_lines default_env init_state [] = Inr init_state"
    by simp
  have b2: "FUZZ_START_LINE_PTRN (strip banner_1000) = Some ''1000''"
    by code_simp
  have b3: "initial_timestamp init_state = None"
    by (simp add: init_state_def)
  have b4: "py_int default_env ''1000'' = Inr 1000"
    by code_simp
  have b5: "dump_error default_env (length (dumped init_state)) = None"
    by (simp add: default_env_def)
  show ?thesis
    using a1 a2 a3 b1 b2 b3 b4 b5
      banner_dumps_only_at_baseline[OF a1 a2, of 0]
      banner_dumps_only_at_baseline[OF b1 b2, of 1000]
    by blast
qed

section \<open>Matching artifacts against pending crashes\<close>

lemma scan_pending_triage:
  "log_triage_crash_over_time (scan_pending elapsed_time artifact kept pend s)
   = log_triage_crash_over_time s
     @ map (triage_entry artifact)
         (accepted (seen_sanitizers s) (filter (\<lambda>p. eligible elapsed_time (fst p)) pend))"
proof (induction pend arbitrary: kept s)
  case Nil
  then show ?case by simp
next
  case (Cons p pend)
  obtain crash_time crash sanitizer where p: "p = (crash_time, crash, sanitizer)"
    by (cases p) auto
  show ?case
    by (auto simp: p Cons.IH pending_class_def triage_entry_def insert_absorb)
qed

lemma scan_pending_seen:
  "seen_sanitizers (scan_pending elapsed_time artifact kept pend s)
   = seen_sanitizers s
     \<union> pending_class ` set (filter (\<lambda>p. eligible elapsed_time (fst p)) pend)"
proof (induction pend arbitrary: kept s)
  case Nil
  then show ?case by simp
next
  case (Cons p pend)
  obtain crash_time crash sanitizer where p: "p = (crash_time, crash, sanitizer)"
    by (cases p) auto
  show ?case
    by (auto simp: p Cons.IH pending_class_def)
qed

lemma scan_pending_need_dump:
  "need_dump (scan_pending elapsed_time artifact kept pend s)
   = (need_dump s
      \<or> accepted (seen_sanitizers s) (filter (\<lambda>p. eligible elapsed_time (fst p)) pend) \<noteq> [])"
proof (induction pend arbitrary: kept s)
  case Nil
  then show ?case by simp
next
  case (Cons p pend)
  obtain crash_time crash sanitizer where p: "p = (crash_time, crash, sanitizer)"
    by (cases p) auto
  show ?case
    by (auto simp: p Cons.IH pending_class_def insert_absorb)
qed

lemma scan_pending_artifact_over_time:
  "artifact_over_time (scan_pending elapsed_time artifact kept pend s) = artifact_over_time s"
proof (induction pend arbitrary: kept s)
  case Nil
  then show ?case by simp
next
  case (Cons p pend)
  obtain crash_time crash sanitizer where p: "p = (crash_time, crash, sanitizer)"
    by (cases p) auto
  show ?case by (simp add: p Cons.IH)
qed

lemma accepted_nonempty:
  "accepted seen ps \<noteq> []
   \<longleftrightarrow> (\<exists>p \<in> set ps. pending_class p = ''SINKPOINT'' \<or> pending_class p \<notin> seen)"
proof (induction ps arbitrary: seen)
  case Nil
  then show ?case by simp
next
  case (Cons p ps)
  show ?case
  proof (cases "pending_class p = ''SINKPOINT'' \<or> pending_class p \<notin> seen")
    case True
    then show ?thesis by auto
  next
    case False
    then have "insert (pending_class p) seen = seen" by auto
    with False Cons.IH[of seen] show ?thesis by auto
  qed
qed

lemma accepted_index:
  "accepted seen ps =
     map (\<lambda>i. ps ! i)
       (filter (\<lambda>i. pending_class (ps ! i) = ''SINKPOINT''
                   \<or> (pending_class (ps ! i) \<notin> seen
                       \<and> pending_class (ps ! i) \<notin> pending_class ` set (take i ps)))
          [0..<length ps])"
proof (induction ps arbitrary: seen)
  case Nil
  then show ?case by simp
next
  case (Cons p ps)
  have upt: "[0..<length (p # ps)] = 0 # map Suc [0..<length ps]"
    by (simp add: upt_conv_Cons map_Suc_upt del: upt_Suc)
  show ?case
    unfolding upt
    by (simp add: Cons.IH filter_map comp_def del: upt_Suc) (auto intro!: arg_cong2[where f = map] filter_cong)
qed

lemma eligible_iff:
  "eligible elapsed_time crash_time \<longleftrightarrow>
     elapsed_time = None \<or> crash_time = None
     \<or> (\<exists>a c. elapsed_time = Some a \<and> crash_time = Some c \<and> a \<ge> c)"
  by (auto simp: eligible_def split: option.splits)

lemma scan_pending_pending:
  "pending_crashes (scan_pending elapsed_time artifact kept pend s)
   = kept @ filter (\<lambda>p. \<not> eligible elapsed_time (fst p)) pend"
proof (induction pend arbitrary: kept s)
  case Nil
  then show ?case by simp
next
  case (Cons p pend)
  obtain crash_time crash sanitizer where p: "p = (crash_time, crash, sanitizer)"
    by (cases p) auto
  show ?case by (simp add: p Cons.IH)
qed

text \<open>
  Claim C3. When an artifact line is processed, the artifact is recorded and the pending queue
  is scanned in arrival order. A pending crash is matched, that is taken out of the queue and
  consumed by this artifact, if and only if the artifact's elapsed time is unknown, or the
  crash's elapsed time is unknown, or the artifact's elapsed time is at least the crash's;
  the crashes that are not eligible stay in the queue, in their order, for a later artifact.
  The matched crashes are triaged in arrival order under this artifact's id: a matched crash
  gives an entry of \<^verbatim>\<open>log_triage_crash_over_time\<close> when its class is SINKPOINT, or is
  neither in the seen set nor the class of an earlier matched crash of the same scan; the
  classes of all matched crashes join the seen set, and the needs-dump flag is set when an
  entry was added.
\<close>

theorem artifact_matches_eligible_pending:
  assumes "parse_artifact_line e line (initial_timestamp s) = Inr (Some (elapsed_time, artifact))"
  shows "\<exists>s'. stage_artifact e line s = Inr s'
     \<and> artifact_over_time s' = artifact_over_time s @ [(elapsed_time, artifact)]
     \<and> pending_crashes s' =
         filter (\<lambda>p. \<not> (elapsed_time = None \<or> fst p = None
                        \<or> (\<exists>a c. elapsed_time = Some a \<and> fst p = Some c \<and> a \<ge> c)))
           (pending_crashes s)
     \<and> (let matched =
               filter (\<lambda>p. elapsed_time = None \<or> fst p = None
                          \<or> (\<exists>a c. elapsed_time = Some a \<and> fst p = Some c \<and> a \<ge> c))
                 (pending_crashes s);
             triaged =
               filter (\<lambda>i. snd (snd (matched ! i)) = ''SINKPOINT''
                          \<or> (snd (snd (matched ! i)) \<notin> seen_sanitizers s
                              \<and> snd (snd (matched ! i))
                                  \<notin> (\<lambda>p. snd (snd p)) ` set (take i matched)))
                 [0..<length matched]
         in log_triage_crash_over_time s' =
              log_triage_crash_over_time s
              @ map (\<lambda>i. (fst (matched ! i), snd (snd (matched ! i)), fst (snd (matched ! i)),
                          artifact)) triaged
            \<and> seen_sanitizers s' = seen_sanitizers s \<union> (\<lambda>p. snd (snd p)) ` set matched
            \<and> need_dump s' = (need_dump s \<or> triaged \<noteq> []))"
proof -
  let ?s1 = "s\<lparr>artifact_over_time := artifact_over_time s @ [(elapsed_time, artifact)]\<rparr>"
  let ?s' = "scan_pending elapsed_time artifact [] (pending_crashes s) ?s1"
  let ?matched = "filter (\<lambda>p. eligible elapsed_time (fst p)) (pending_crashes s)"
  have st: "stage_artifact e line s = Inr ?s'"
    using assms by (simp add: stage_artifact_def Let_def)
  have pc: "pending_class = (\<lambda>p. snd (snd p))"
    by (simp add: pending_class_def fun_eq_iff)
  have acc: "accepted (seen_sanitizers s) ?matched =
     map (\<lambda>i. ?matched ! i)
       (filter (\<lambda>i. snd (snd (?matched ! i)) = ''SINKPOINT''
                   \<or> (snd (snd (?matched ! i)) \<notin> seen_sanitizers s
                       \<and> snd (snd (?matched ! i)) \<notin> (\<lambda>p. snd (snd p)) ` set (take i ?matched)))
          [0..<length ?matched])"
    using accepted_index[of "seen_sanitizers s" ?matched] unfolding pc .
  have f1: "artifact_over_time ?s' = artifact_over_time s @ [(elapsed_time, artifact)]"
    by (simp add: scan_pending_artifact_over_time)
  have f2: "pending_crashes ?s' = filter (\<lambda>p. \<not> eligible elapsed_time (fst p)) (pending_crashes s)"
    by (simp add: scan_pending_pending)
  have f3: "log_triage_crash_over_time ?s' =
      log_triage_crash_over_time s
      @ map (triage_entry artifact) (accepted (seen_sanitizers s) ?matched)"
    by (simp add: scan_pending_triage)
  have f4: "seen_sanitizers ?s' = seen_sanitizers s \<union> (\<lambda>p. snd (snd p)) ` set ?matched"
    by (simp add: scan_pending_seen pc)
  have f5: "need_dump ?s' = (need_dump s \<or> accepted (seen_sanitizers s) ?matched \<noteq> [])"
    by (simp add: scan_pending_need_dump)
  show ?thesis
    unfolding st Let_def eligible_iff[symmetric]
    using f1 f2 f3 f4 f5
    by (simp add: acc comp_def triage_entry_def)
qed

lemma artifact_line_1010:
  "parse_artifact_line default_env
     ''1010 artifact_prefix=./; Test unit written to /out/artifacts/crash-abc123''
     (initial_timestamp two_pending_state) = Inr (Some (Some 10, ''crash-abc123''))"
  by code_simp

theorem artifact_matches_eligible_pending_witness:
  "parse_artifact_line default_env
     ''1010 artifact_prefix=./; Test unit written to /out/artifacts/crash-abc123''
     (initial_timestamp two_pending_state) = Inr (Some (Some 10, ''crash-abc123''))
   \<and> (\<exists>s'. stage_artifact default_env
         ''1010 artifact_prefix=./; Test unit written to /out/artifacts/crash-abc123''
         two_pending_state = Inr s'
       \<and> artifact_over_time s' = [(Some 10, ''crash-abc123'')]
       \<and> pending_crashes s' = [(Some 20, sql_crash, sql_label)]
       \<and> log_triage_crash_over_time s'
           = [(Some 5, ''UNKNOWN SANITIZER'', mixed_crash, ''crash-abc123'')]
       \<and> seen_sanitizers s' = {''UNKNOWN SANITIZER''}
       \<and> need_dump s' = True)"
proof -
  have p: "pending_crashes two_pending_state
      = [(Some 20, sql_crash, sql_label), (Some 5, mixed_crash, ''UNKNOWN SANITIZER'')]"
    and q: "artifact_over_time two_pending_state = []"
      "log_triage_crash_over_time two_pending_state = []"
      "seen_sanitizers two_pending_state = {}"
      "need_dump two_pending_state = False"
    by (simp_all add: two_pending_state_def init_state_def)
  show ?thesis
    using artifact_line_1010 artifact_matches_eligible_pending[OF artifact_line_1010]
    by (simp add: p q Let_def)
qed

section \<open>Successive sink hits\<close>









section \<open>The round counter across engine runs\<close>











lemma run_trace_append:
  "run_lines e s xs = Inr s' \<Longrightarrow> run_trace e s (xs @ ys) = run_trace e s xs @ run_trace e s' ys"
  by (induction xs arbitrary: s) (auto split: sum.splits)






section \<open>Errors raised while a line is processed\<close>

lemma digits_cov_line:
  assumes d: "\<forall>c \<in> set ds. is_digit c" and ne: "ds \<noteq> []"
  shows "strip (CHR ''#'' # ds @ '' cov: 1 ft: 1'') = CHR ''#'' # ds @ '' cov: 1 ft: 1''"
    and "ts_prefix (CHR ''#'' # ds @ '' cov: 1 ft: 1'') = None"
    and "OLD_LIBFUZZER_COV_LINE_PTRN (CHR ''#'' # ds @ '' cov: 1 ft: 1'') = Some (ds, ''1'', ''1'')"
proof -
  show "strip (CHR ''#'' # ds @ '' cov: 1 ft: 1'') = CHR ''#'' # ds @ '' cov: 1 ft: 1''"
    by (simp add: strip_def is_space_def)
  show "ts_prefix (CHR ''#'' # ds @ '' cov: 1 ft: 1'') = None"
    by (simp add: ts_prefix_def is_digit_def)
  have t: "takeWhile is_digit (ds @ '' cov: 1 ft: 1'') = ds"
    using d by (simp add: takeWhile_append2 is_digit_def)
  have dr: "dropWhile is_digit (ds @ '' cov: 1 ft: 1'') = '' cov: 1 ft: 1''"
    using d by (simp add: dropWhile_append2 is_digit_def)
  have l: "last_match cov_tail (first_line '' cov: 1 ft: 1'') = Some (''1'', ''1'')"
    by code_simp
  show "OLD_LIBFUZZER_COV_LINE_PTRN (CHR ''#'' # ds @ '' cov: 1 ft: 1'') = Some (ds, ''1'', ''1'')"
    using ne by (simp add: OLD_LIBFUZZER_COV_LINE_PTRN_def t dr l)
qed

lemma overlong_round_raises:
  assumes d: "\<forall>c \<in> set ds. is_digit c"
    and len: "640 < length ds" "0 < int_max_str_digits e" "int_max_str_digits e < length ds"
  shows "process_line e s (CHR ''#'' # ds @ '' cov: 1 ft: 1'') = Inl (ValueError, s)"
proof -
  let ?l = "CHR ''#'' # ds @ '' cov: 1 ft: 1''"
  have ne: "ds \<noteq> []" using len(1) by auto
  note f = digits_cov_line[OF d ne]
  have st: "stage_start e ?l s = Inr s"
    by (simp add: stage_start_def FUZZ_START_LINE_PTRN_def f(2))
  have pi: "py_int e ds = Inl ValueError"
    using len by (simp add: py_int_def)
  have pc: "parse_cov_line e ?l (initial_timestamp s) = Inl ValueError"
    by (simp add: parse_cov_line_def LIBFUZZER_COV_LINE_PTRN_def f(2) f(3) pi)
  have cv: "stage_cov e ?l s = Inl (ValueError, s)"
    by (simp add: stage_cov_def pc)
  show ?thesis
    by (simp add: process_line_def Let_def f(1) st cv then_stage_def)
qed

lemma overlong_cov_line_raises:
  "process_line default_env s overlong_cov_line = Inl (ValueError, s)"
  unfolding overlong_cov_line_def
  by (rule overlong_round_raises) (simp_all add: is_digit_def default_env_def)

lemma scan_pending_logged: "logged (scan_pending t a kept ps s) = logged s"
  by (induction t a kept ps s rule: scan_pending.induct) auto

lemma logged_is_then:
  "logged_is l r \<Longrightarrow> (\<And>s. logged s = l \<Longrightarrow> logged_is l (f s)) \<Longrightarrow> logged_is l (then_stage r f)"
  by (cases r) (auto simp: logged_is_def then_stage_def)

lemma stage_start_logged: "logged_is (logged s) (stage_start e line s)"
  by (auto simp: logged_is_def stage_start_def split: option.splits sum.splits)

lemma stage_cov_logged: "logged_is (logged s) (stage_cov e line s)"
  by (auto simp: logged_is_def stage_cov_def split: option.splits sum.splits prod.splits)

lemma stage_crash_logged: "logged_is (logged s) (stage_crash e line s)"
  by (auto simp: logged_is_def stage_crash_def Let_def split: option.splits sum.splits prod.splits)

lemma stage_artifact_logged: "logged_is (logged s) (stage_artifact e line s)"
  by (auto simp: logged_is_def stage_artifact_def Let_def scan_pending_logged
      split: option.splits sum.splits prod.splits)

lemma stage_exit_logged: "logged (stage_exit line s) = logged s"
  by (simp add: stage_exit_def Let_def)

lemma stage_sync_logged: "logged_is (logged s) (stage_sync e s)"
  by (auto simp: logged_is_def stage_sync_def Let_def sync_result_def dump_fuzz_data_def
      then_stage_def split: option.splits)

lemma process_line_logged: "logged_is (logged s) (process_line e s raw)"
proof -
  have e: "logged_is (logged s) (stage_sync e (stage_exit (strip raw) s4))"
    if "logged s4 = logged s" for s4
    using stage_sync_logged[of "stage_exit (strip raw) s4" e] that
    by (simp add: stage_exit_logged)
  have d: "logged_is (logged s) (then_stage (stage_artifact e (strip raw) s3)
            (\<lambda>s4. stage_sync e (stage_exit (strip raw) s4)))"
    if "logged s3 = logged s" for s3
  proof (rule logged_is_then)
    show "logged_is (logged s) (stage_artifact e (strip raw) s3)"
      using stage_artifact_logged[of s3 e "strip raw"] that by simp
  qed (rule e)
  have c: "logged_is (logged s) (then_stage (stage_crash e (strip raw) s2) (\<lambda>s3.
            then_stage (stage_artifact e (strip raw) s3)
            (\<lambda>s4. stage_sync e (stage_exit (strip raw) s4))))"
    if "logged s2 = logged s" for s2
  proof (rule logged_is_then)
    show "logged_is (logged s) (stage_crash e (strip raw) s2)"
      using stage_crash_logged[of s2 e "strip raw"] that by simp
  qed (rule d)
  have b: "logged_is (logged s) (then_stage (stage_cov e (strip raw) s1) (\<lambda>s2.
            then_stage (stage_crash e (strip raw) s2) (\<lambda>s3.
            then_stage (stage_artifact e (strip raw) s3)
            (\<lambda>s4. stage_sync e (stage_exit (strip raw) s4)))))"
    if "logged s1 = logged s" for s1
  proof (rule logged_is_then)
    show "logged_is (logged s) (stage_cov e (strip raw) s1)"
      using stage_cov_logged[of s1 e "strip raw"] that by simp
  qed (rule c)
  show ?thesis
    unfolding process_line_def Let_def
    by (rule logged_is_then) (rule stage_start_logged, rule b)
qed

lemma run_lines_logged: "logged_is (logged s) (run_lines e s file_obj)"
proof (induction file_obj arbitrary: s)
  case Nil
  then show ?case by (simp add: logged_is_def)
next
  case (Cons raw rest)
  show ?case
  proof (cases "process_line e s raw")
    case (Inl x)
    with process_line_logged[of s e raw] show ?thesis by simp
  next
    case (Inr s1)
    with process_line_logged[of s e raw] have "logged s1 = logged s"
      by (simp add: logged_is_def)
    with Cons.IH[of s1] Inr show ?thesis by simp
  qed
qed

text \<open>
  Claim C2, as stated: a line that raises is caught and logged and later lines of the stream
  are still processed. The \<^verbatim>\<open>try\<close> encloses the whole loop, not one iteration: the line
  after a coverage line whose round number \<^verbatim>\<open>int\<close> refuses contributes nothing, although
  alone it is read as a coverage report; and where \<^verbatim>\<open>dump_fuzz_data\<close> is not defined, the
  dump after the run-start banner raises NameError and the coverage line after it is lost.
\<close>

theorem later_lines_not_processed_counterexample:
  "cov_over_time (parse_log_in_stream default_env [overlong_cov_line, ''#2 cov: 5 ft: 7'']) = []
   \<and> logged (parse_log_in_stream default_env [overlong_cov_line, ''#2 cov: 5 ft: 7''])
       = [ValueError]
   \<and> cov_over_time (parse_log_in_stream default_env [''#2 cov: 5 ft: 7'']) = [(None, 5)]
   \<and> cov_over_time (parse_log_in_stream importer_env [banner_1000, ''1001 #1 cov: 5 ft: 7'']) = []
   \<and> logged (parse_log_in_stream importer_env [banner_1000, ''1001 #1 cov: 5 ft: 7''])
       = [NameError]"
proof -
  have "run_lines default_env init_state [overlong_cov_line, ''#2 cov: 5 ft: 7'']
      = Inl (ValueError, init_state)"
    by (simp add: overlong_cov_line_raises)
  then have "parse_log_in_stream default_env [overlong_cov_line, ''#2 cov: 5 ft: 7'']
      = init_state\<lparr>logged := [ValueError]\<rparr>"
    by (simp add: parse_log_in_stream_def init_state_def)
  moreover have
    "cov_over_time (parse_log_in_stream default_env [''#2 cov: 5 ft: 7'']) = [(None, 5)]"
    by code_simp
  moreover have
    "cov_over_time (parse_log_in_stream importer_env [banner_1000, ''1001 #1 cov: 5 ft: 7'']) = []
     \<and> logged (parse_log_in_stream importer_env [banner_1000, ''1001 #1 cov: 5 ft: 7''])
         = [NameError]"
    by code_simp
  ultimately show ?thesis by (simp add: init_state_def)
qed

text \<open>
  Claim C2, amended: an error raised while a line is processed is caught by the one handler
  around the whole loop and logged, once; it ends the processing of the stream. The function
  returns the state at the raise, whatever lines follow the raising line: no later line
  completes an iteration or contributes anything.
\<close>

theorem error_ends_stream:
  assumes "run_lines e init_state pre = Inr s1"
    and "process_line e s1 raw = Inl (err, s2)"
  shows "parse_log_in_stream e (pre @ raw # post) = s2\<lparr>logged := [err]\<rparr>
     \<and> run_trace e init_state (pre @ raw # post) = run_trace e init_state pre"
proof -
  have "logged s1 = logged init_state"
    using run_lines_logged[of init_state e pre] assms(1) by (simp add: logged_is_def)
  moreover have "logged s2 = logged s1"
    using process_line_logged[of s1 e raw] assms(2) by (simp add: logged_is_def)
  ultimately have l: "logged s2 = []" by (simp add: init_state_def)
  have r: "run_lines e init_state (pre @ raw # post) = Inl (err, s2)"
    using assms by (simp add: run_lines_append)
  have "parse_log_in_stream e (pre @ raw # post) = s2\<lparr>logged := [err]\<rparr>"
    using r l by (simp add: parse_log_in_stream_def)
  moreover have "run_trace e init_state (pre @ raw # post) = run_trace e init_state pre"
    using assms by (simp add: run_trace_append)
  ultimately show ?thesis by simp
qed

theorem error_ends_stream_witness:
  "run_lines default_env init_state [''#1 cov: 5 ft: 7''] = Inr one_cov_state
   \<and> process_line default_env one_cov_state overlong_cov_line = Inl (ValueError, one_cov_state)
   \<and> parse_log_in_stream default_env ([''#1 cov: 5 ft: 7''] @ overlong_cov_line # [''#2 cov: 6 ft: 8''])
       = one_cov_state\<lparr>logged := [ValueError]\<rparr>
   \<and> cov_over_time (parse_log_in_stream default_env
         ([''#1 cov: 5 ft: 7''] @ overlong_cov_line # [''#2 cov: 6 ft: 8''])) = [(None, 5)]"
proof -
  have h1: "run_lines default_env init_state [''#1 cov: 5 ft: 7''] = Inr one_cov_state"
    by code_simp
  have h2: "process_line default_env one_cov_state overlong_cov_line
      = Inl (ValueError, one_cov_state)"
    by (rule overlong_cov_line_raises)
  have h3: "cov_over_time one_cov_state = [(None, 5)]"
    by (simp add: one_cov_state_def)
  show ?thesis
    using h1 h2 h3 error_ends_stream[OF h1 h2, of "[''#2 cov: 6 ft: 8'']"]
    by simp
qed

end
